theory Spec2Isabelle
  imports Complex_Main
begin

section \<open>The combined website-metrics handler of umami (getWebsiteMetrics.ts)\<close>

text \<open>
  The source file holds three revisions of one request handler. The development embeds
  the latest one, the exported function \<open>GET\<close>. Query functions, lookup tables and
  column lists are imported by the source from modules that are not part of it; they are
  parameters of the definitions below. A lookup table is a plain object whose own
  properties are strings and whose prototype is \<open>Object.prototype\<close>; the parameter gives
  the own properties, and a read \<open>table[k]\<close> goes through the prototype.

  Conventions of the embedding:
  \<^item> a JavaScript string is a \<open>string\<close>; \<open>toLowerCase\<close> is modelled on the ASCII
    letters, which is what it does on ASCII text;
  \<^item> a plain object is the list of its own enumerable properties in the order in which
    \<open>Object.keys\<close> and \<open>Object.values\<close> enumerate them;
  \<^item> a count \<open>y\<close> is an \<open>int\<close>, and the addition of two counts is the addition of
    JavaScript numbers: the sum is rounded to the nearest double;
  \<^item> a thrown exception is the left summand of a result of type \<open>js_error + 'a\<close>.
\<close>

subsection \<open>Strings\<close>

definition upper_letters :: string where
  "upper_letters = ''ABCDEFGHIJKLMNOPQRSTUVWXYZ''"

definition lower_letters :: string where
  "lower_letters = ''abcdefghijklmnopqrstuvwxyz''"

definition lower_char :: "char \<Rightarrow> char" where
  "lower_char c = (case map_of (zip upper_letters lower_letters) c of Some d \<Rightarrow> d | None \<Rightarrow> c)"

text \<open>\<open>s.toLowerCase()\<close>\<close>

definition toLowerCase :: "string \<Rightarrow> string" where
  "toLowerCase s = map lower_char s"

text \<open>\<open>s.split('-')[0]\<close>: the part of \<open>s\<close> before the first hyphen, all of \<open>s\<close> when it has none.\<close>

definition split_first :: "string \<Rightarrow> string" where
  "split_first s = takeWhile (\<lambda>c. c \<noteq> CHR ''-'') s"

text \<open>\<open>s.replace(/ /g, '-')\<close>\<close>

definition replace_spaces :: "string \<Rightarrow> string" where
  "replace_spaces s = map (\<lambda>c. if c = CHR '' '' then CHR ''-'' else c) s"

subsection \<open>Plain objects\<close>

text \<open>
  The own property keys of an ordinary object are enumerated with the array indices first,
  in ascending numeric order, and the other string keys after them, in the order of their
  creation. An array index is the canonical decimal numeral of an integer from 0 to
  \<open>2^32 - 2\<close>.
\<close>

type_synonym 'v jsobj = "(string \<times> 'v) list"

definition is_digit :: "char \<Rightarrow> bool" where
  "is_digit c = (c \<in> set ''0123456789'')"

definition digit_val :: "char \<Rightarrow> nat" where
  "digit_val c =
     (case map_of (zip ''0123456789'' [0, 1, 2, 3, 4, 5, 6, 7, 8, 9]) c of
        Some d \<Rightarrow> d | None \<Rightarrow> 0)"

definition dec_val :: "string \<Rightarrow> nat" where
  "dec_val s = foldl (\<lambda>a c. 10 * a + digit_val c) 0 s"

definition is_array_index :: "string \<Rightarrow> bool" where
  "is_array_index s =
     (s \<noteq> [] \<and> list_all is_digit s \<and> (s = ''0'' \<or> hd s \<noteq> CHR ''0'') \<and> dec_val s < 4294967295)"

text \<open>A string of digits that does not start with a zero; the empty string is one.\<close>

definition no_leading_zero :: "string \<Rightarrow> bool" where
  "no_leading_zero s \<longleftrightarrow> list_all is_digit s \<and> (s = [] \<or> hd s \<noteq> CHR ''0'')"

definition Object_keys :: "'v jsobj \<Rightarrow> string list" where
  "Object_keys obj = map fst obj"

definition Object_values :: "'v jsobj \<Rightarrow> 'v list" where
  "Object_values obj = map snd obj"

definition has_own :: "'v jsobj \<Rightarrow> string \<Rightarrow> bool" where
  "has_own obj k = (k \<in> set (Object_keys obj))"

text \<open>The value of the own property \<open>k\<close>, if the object has one.\<close>

definition get_own :: "'v jsobj \<Rightarrow> string \<Rightarrow> 'v option" where
  "get_own obj k = map_of obj k"

text \<open>A new array-index key goes before the first key that is not a smaller array index.\<close>

fun insert_index :: "string \<Rightarrow> 'v \<Rightarrow> 'v jsobj \<Rightarrow> 'v jsobj" where
  "insert_index k v [] = [(k, v)]"
| "insert_index k v ((k', v') # ps) =
     (if is_array_index k' \<and> dec_val k' < dec_val k then (k', v') # insert_index k v ps
      else (k, v) # (k', v') # ps)"

definition create_own :: "'v jsobj \<Rightarrow> string \<Rightarrow> 'v \<Rightarrow> 'v jsobj" where
  "create_own obj k v = (if is_array_index k then insert_index k v obj else obj @ [(k, v)])"

fun replace_own :: "'v jsobj \<Rightarrow> string \<Rightarrow> 'v \<Rightarrow> 'v jsobj" where
  "replace_own [] k v = []"
| "replace_own ((k', v') # ps) k v =
     (if k' = k then (k, v) # ps else (k', v') # replace_own ps k v)"

text \<open>
  The definition of a property by an object literal or by a spread (\<open>{...src, k: v}\<close>):
  the own property is created, or its value replaced, whatever the key.
\<close>

definition define_own :: "'v jsobj \<Rightarrow> string \<Rightarrow> 'v \<Rightarrow> 'v jsobj" where
  "define_own obj k v = (if has_own obj k then replace_own obj k v else create_own obj k v)"

text \<open>
  \<open>obj[k] = v\<close> on an object that was created by an object literal and whose property
  values are objects. Such an object inherits the accessor \<open>__proto__\<close> from
  \<open>Object.prototype\<close>: an assignment to that key replaces the prototype of the object and
  creates no own property. Every other key becomes, or already is, an own property.
\<close>

definition js_assign :: "'v jsobj \<Rightarrow> string \<Rightarrow> 'v \<Rightarrow> 'v jsobj" where
  "js_assign obj k v =
     (if k = ''__proto__'' then obj else define_own obj k v)"

subsection \<open>Values and their conversion to numbers\<close>

datatype js_error = TypeError

text \<open>
  A JavaScript number: a finite value, negative zero, \<open>NaN\<close> or an infinity. No arithmetic
  is done on these numbers below, so the finite ones are not restricted to the doubles.
\<close>

datatype jsnum = Finite real | NegZero | NaN | PosInf | NegInf

text \<open>The primitive values a row of a query result holds.\<close>

datatype jsval = JUndefined | JNull | JBool bool | JNum jsnum | JStr string | JBigInt int

text \<open>
  The conversions of a string and of a BigInt to a number are functions of the language
  (its numeric-literal grammar and its rounding to a double); they are parameters.
\<close>

record number_env =
  StringToNumber :: "string \<Rightarrow> jsnum"
  BigIntToNumber :: "int \<Rightarrow> jsnum"

text \<open>\<open>Number(v)\<close>\<close>

fun Number :: "number_env \<Rightarrow> jsval \<Rightarrow> jsnum" where
  "Number env JUndefined = NaN"
| "Number env JNull = Finite 0"
| "Number env (JBool b) = (if b then Finite 1 else Finite 0)"
| "Number env (JNum n) = n"
| "Number env (JStr s) = StringToNumber env s"
| "Number env (JBigInt i) = BigIntToNumber env i"

text \<open>A number is falsy when it is a zero or \<open>NaN\<close>.\<close>

fun truthy :: "jsnum \<Rightarrow> bool" where
  "truthy (Finite r) = (r \<noteq> 0)"
| "truthy NegZero = False"
| "truthy NaN = False"
| "truthy PosInf = True"
| "truthy NegInf = True"

text \<open>\<open>n || 0\<close>\<close>

definition or_zero :: "jsnum \<Rightarrow> jsnum" where
  "or_zero n = (if truthy n then n else Finite 0)"

text \<open>\<open>Number(v) || 0\<close>\<close>

definition toNumberOrZero :: "number_env \<Rightarrow> jsval \<Rightarrow> jsnum" where
  "toNumberOrZero env v = or_zero (Number env v)"

text \<open>The sign of a number; \<open>NaN\<close> has none.\<close>

fun non_negative :: "jsnum \<Rightarrow> bool" where
  "non_negative (Finite r) = (0 \<le> r)"
| "non_negative NegZero = True"
| "non_negative NaN = False"
| "non_negative PosInf = True"
| "non_negative NegInf = False"

fun negative :: "jsnum \<Rightarrow> bool" where
  "negative (Finite r) = (r < 0)"
| "negative NegInf = True"
| "negative n = False"

subsection \<open>Query results\<close>

text \<open>
  A query returns a promise, which is fulfilled with a list of rows or rejected. The
  handler attaches \<open>.catch(() => badRequest())\<close> to every query, so the awaited value is
  the list of rows or the \<open>Response\<close> object that \<open>badRequest()\<close> built. That object is
  not an array: it has no element \<open>0\<close>, no \<open>map\<close> method and it is not iterable.
\<close>

datatype 'a settled = Fulfilled "'a list" | Rejected

datatype 'a awaited = Rows "'a list" | BadRequestResponse

definition catch_badRequest :: "'a settled \<Rightarrow> 'a awaited" where
  "catch_badRequest p = (case p of Fulfilled rows \<Rightarrow> Rows rows | Rejected \<Rightarrow> BadRequestResponse)"

text \<open>\<open>v[0]\<close>: the first row, or \<open>undefined\<close> (here \<open>None\<close>).\<close>

definition first_row :: "'a awaited \<Rightarrow> 'a option" where
  "first_row v = (case v of Rows (r # rs) \<Rightarrow> Some r | Rows [] \<Rightarrow> None | BadRequestResponse \<Rightarrow> None)"

subsection \<open>The stats differencer\<close>

type_synonym StatRow = "jsval jsobj"

record StatPair =
  "value" :: jsnum
  prev :: jsnum

type_synonym StatComparison = "StatPair jsobj"

text \<open>
  \<open>row[key]\<close> read for its number: the own property, \<open>undefined\<close> when there is none.
  (A member inherited from \<open>Object.prototype\<close> is an object or a function; \<open>Number\<close> makes
  it \<open>NaN\<close>, as it does \<open>undefined\<close>.)
\<close>

definition row_get :: "StatRow \<Rightarrow> string \<Rightarrow> jsval" where
  "row_get row key = (case get_own row key of Some v \<Rightarrow> v | None \<Rightarrow> JUndefined)"

text \<open>The object \<open>{value: Number(metrics[0][key]) || 0, prev: Number(prevPeriod[0][key]) || 0}\<close>\<close>

definition stat_pair :: "number_env \<Rightarrow> StatRow \<Rightarrow> StatRow \<Rightarrow> string \<Rightarrow> StatPair" where
  "stat_pair env cur p key =
     \<lparr>value = toNumberOrZero env (row_get cur key), prev = toNumberOrZero env (row_get p key)\<rparr>"

text \<open>
  The callback of the \<open>reduce\<close>, run over the keys of the first current row. Reading
  \<open>prevPeriod[0][key]\<close> throws when \<open>prevPeriod[0]\<close> is \<open>undefined\<close>.
\<close>

fun stats_reduce ::
  "number_env \<Rightarrow> StatRow \<Rightarrow> StatRow option \<Rightarrow> string list \<Rightarrow> StatComparison \<Rightarrow>
     js_error + StatComparison" where
  "stats_reduce env cur prv [] obj = Inr obj"
| "stats_reduce env cur prv (key # keys) obj =
     (case prv of
        None \<Rightarrow> Inl TypeError
      | Some p \<Rightarrow> stats_reduce env cur prv keys (js_assign obj key (stat_pair env cur p key)))"

text \<open>
  \<open>Object.keys(metrics[0]).reduce(..., {})\<close>; \<open>Object.keys(undefined)\<close> throws.
\<close>

definition stats ::
  "number_env \<Rightarrow> StatRow awaited \<Rightarrow> StatRow awaited \<Rightarrow> js_error + StatComparison" where
  "stats env metrics prevPeriod =
     (case first_row metrics of
        None \<Rightarrow> Inl TypeError
      | Some cur \<Rightarrow> stats_reduce env cur (first_row prevPeriod) (Object_keys cur) [])"

subsection \<open>The filter builder\<close>

text \<open>
  The names of the members of \<open>Object.prototype\<close>, which every plain object inherits.
  All of them are functions, except \<open>__proto__\<close>, an accessor that gives the prototype of
  the object, \<open>Object.prototype\<close> itself for a table; every one of these values is truthy.
\<close>

definition prototype_members :: "string list" where
  "prototype_members =
     [''constructor'', ''__defineGetter__'', ''__defineSetter__'', ''hasOwnProperty'',
      ''__lookupGetter__'', ''__lookupSetter__'', ''isPrototypeOf'', ''propertyIsEnumerable'',
      ''toString'', ''valueOf'', ''__proto__'', ''toLocaleString'']"

text \<open>
  What a read of a table gives: a string of the table, or the member of \<open>Object.prototype\<close>
  of the given name.
\<close>

datatype table_value = Text string | Member string

text \<open>
  \<open>table[k]\<close>: the own property when there is one, else the inherited member, else
  \<open>undefined\<close> (here \<open>None\<close>).
\<close>

definition table_read :: "(string \<Rightarrow> string option) \<Rightarrow> string \<Rightarrow> table_value option" where
  "table_read table k =
     (case table k of
        Some v \<Rightarrow> Some (Text v)
      | None \<Rightarrow> if k \<in> set prototype_members then Some (Member k) else None)"

text \<open>
  An entry of a filter set is a filter that \<open>getRequestFilters\<close> passed through (of a type
  \<open>'f\<close> that the handler never inspects), a date bound, or the object
  \<open>{name, column, operator, value}\<close> that the handler builds for a search term.
\<close>

datatype 'f filter_value =
    PassThrough 'f
  | DateValue int
  | SearchFilter string table_value string string

type_synonym 'f FilterSet = "'f filter_value jsobj"

text \<open>Whether an entry is the object built for a search term.\<close>

fun is_search_filter :: "'f filter_value \<Rightarrow> bool" where
  "is_search_filter (SearchFilter n c ope v) = True"
| "is_search_filter fv = False"

text \<open>\<open>{...obj}\<close> copies the own properties in their order.\<close>

definition spread :: "'v jsobj \<Rightarrow> 'v jsobj" where
  "spread obj = fold (\<lambda>(k, v) acc. define_own acc k v) obj []"

text \<open>\<open>{ ...filters, startDate, endDate }\<close>\<close>

definition with_dates :: "'f FilterSet \<Rightarrow> int \<Rightarrow> int \<Rightarrow> 'f FilterSet" where
  "with_dates filters startDate endDate =
     define_own (define_own (spread filters) ''startDate'' (DateValue startDate))
       ''endDate'' (DateValue endDate)"

text \<open>
  \<open>table[k] || k\<close>: the empty string and \<open>undefined\<close> are falsy and give \<open>k\<close>; an inherited
  member is truthy and is the result.
\<close>

definition lookup_or :: "(string \<Rightarrow> string option) \<Rightarrow> string \<Rightarrow> table_value" where
  "lookup_or table k =
     (case table_read table k of
        Some (Text v) \<Rightarrow> (if v \<noteq> [] then Text v else Text k)
      | Some (Member m) \<Rightarrow> Member m
      | None \<Rightarrow> Text k)"

text \<open>
  The statement \<open>if (search) filters_search[type] = {name: type, column, operator, value: search}\<close>,
  with \<open>column = FILTER_COLUMNS[type] || type\<close>. An absent search term is \<open>None\<close>; the
  empty string is falsy.
\<close>

definition add_search ::
  "(string \<Rightarrow> string option) \<Rightarrow> string \<Rightarrow> 'f FilterSet \<Rightarrow> string \<Rightarrow> string option \<Rightarrow> 'f FilterSet" where
  "add_search filter_columns contains filters_search ty srch =
     (case srch of
        None \<Rightarrow> filters_search
      | Some s \<Rightarrow>
          (if s = [] then filters_search
           else js_assign filters_search ty
                  (SearchFilter ty (lookup_or filter_columns ty) contains s)))"

subsection \<open>The environment of a request\<close>

record DataPoint =
  x :: string
  y :: int

datatype 'f query_call =
    WebsiteStatsCall string "'f FilterSet"
  | SessionMetricsCall string string "'f FilterSet" "int option" "int option"
  | PageviewMetricsCall string string "'f FilterSet" "int option" "int option"

text \<open>
  What the handler changes outside its own variables: the queries it has issued, in order,
  and whether \<open>Object.prototype\<close> has acquired a property \<open>y\<close> (it has none when the
  module is loaded).
\<close>

record 'f world =
  calls :: "'f query_call list"
  proto_y :: bool

text \<open>The imported constants, tables and query functions.\<close>

record 'f backend =
  SESSION_COLUMNS :: "string list"
  EVENT_COLUMNS :: "string list"
  FILTER_COLUMNS :: "string \<Rightarrow> string option"
  OPERATORS_contains :: string
  OS_NAMES :: "string \<Rightarrow> string option"
  BROWSERS :: "string \<Rightarrow> string option"
  countryNames :: "string \<Rightarrow> string option"
  conversions :: number_env
  getWebsiteStats :: "string \<Rightarrow> 'f FilterSet \<Rightarrow> StatRow settled"
  getSessionMetrics ::
    "string \<Rightarrow> string \<Rightarrow> 'f FilterSet \<Rightarrow> int option \<Rightarrow> int option \<Rightarrow> DataPoint settled"
  getPageviewMetrics ::
    "string \<Rightarrow> string \<Rightarrow> 'f FilterSet \<Rightarrow> int option \<Rightarrow> int option \<Rightarrow> DataPoint settled"

text \<open>
  A request after \<open>parseRequest\<close>, \<open>canViewWebsite\<close>, \<open>getRequestDateRange\<close>,
  \<open>getCompareDate\<close> and \<open>getRequestFilters\<close> have looked at it.
\<close>

record 'f request =
  parse_error :: bool
  canViewWebsite :: bool
  websiteId :: string
  type :: string
  limit :: "int option"
  offset :: "int option"
  search :: "string option"
  startDate :: int
  endDate :: int
  compareStartDate :: int
  compareEndDate :: int
  getRequestFilters :: "'f jsobj"

subsection \<open>The metrics fetcher and the language normalizer\<close>

text \<open>The bucket key of a point: \<open>String(x).toLowerCase().split('-')[0]\<close>\<close>

definition bucket_of :: "DataPoint \<Rightarrow> string" where
  "bucket_of p = split_first (toLowerCase (x p))"

text \<open>
  The addition of two counts. An integer of magnitude up to \<open>2^53\<close> is a double. A larger
  one, of \<open>bit_length\<close> binary digits, is rounded to 53 significant bits, to the nearest
  and, half-way, to the even neighbour (sums of magnitude \<open>2^1024\<close> and more, which give
  \<open>Infinity\<close>, are outside the counts considered).
\<close>

fun bit_length :: "nat \<Rightarrow> nat" where
  "bit_length n = (if n = 0 then 0 else Suc (bit_length (n div 2)))"

declare bit_length.simps [simp del]

definition round_double :: "int \<Rightarrow> int" where
  "round_double n =
     (if \<bar>n\<bar> \<le> 2 ^ 53 then n
      else
        (let m = nat \<bar>n\<bar>;
             e = bit_length m - 53;
             q = m div 2 ^ e;
             r = m mod 2 ^ e;
             q' = (if 2 * r > 2 ^ e \<or> (2 * r = 2 ^ e \<and> odd q) then q + 1 else q)
         in sgn n * int (q' * 2 ^ e)))"

definition js_add :: "int \<Rightarrow> int \<Rightarrow> int" where
  "js_add a b = round_double (a + b)"

text \<open>
  One turn of the loop \<open>for (const {x, y} of data)\<close> over the object \<open>combined\<close>, which
  starts as \<open>{}\<close>. The test \<open>combined[key] === undefined\<close> reads through the prototype:
  \<^item> an own property is an entry made by an earlier turn, and its \<open>y\<close> is increased;
  \<^item> \<open>__proto__\<close> and \<open>constructor\<close> are the members of \<open>Object.prototype\<close> whose names
    are lower-case; they are never \<open>undefined\<close>, so no entry is made for them, and
    \<open>combined[key].y += y\<close> writes \<open>NaN\<close> to the \<open>y\<close> of \<open>Object.prototype\<close>
    (for \<open>__proto__\<close>) or of the function \<open>Object\<close> (for \<open>constructor\<close>);
  \<^item> once \<open>Object.prototype\<close> has a \<open>y\<close>, the key \<open>y\<close> is inherited too, with the value
    \<open>NaN\<close>; the assignment to a property of that number throws in the strict code of a
    module;
  \<^item> any other key is \<open>undefined\<close> and gets a new entry.
\<close>

fun combine_step ::
  "DataPoint jsobj \<times> bool \<Rightarrow> DataPoint \<Rightarrow> js_error + (DataPoint jsobj \<times> bool)" where
  "combine_step (combined, polluted) p =
     (let key = bucket_of p in
      case get_own combined key of
        Some e \<Rightarrow> Inr (replace_own combined key (e\<lparr>y := js_add (y e) (y p)\<rparr>), polluted)
      | None \<Rightarrow>
          if key = ''__proto__'' then Inr (combined, True)
          else if key = ''constructor'' then Inr (combined, polluted)
          else if key = ''y'' \<and> polluted then Inl TypeError
          else Inr (create_own combined key \<lparr>x = key, y = y p\<rparr>, polluted))"

fun combine_loop ::
  "DataPoint jsobj \<times> bool \<Rightarrow> DataPoint list \<Rightarrow> js_error + (DataPoint jsobj \<times> bool)" where
  "combine_loop st [] = Inr st"
| "combine_loop st (p # ps) =
     (case combine_step st p of Inl e \<Rightarrow> Inl e | Inr st' \<Rightarrow> combine_loop st' ps)"

text \<open>
  The branch \<open>if (type === 'language')\<close>: the loop, then \<open>Object.values(combined)\<close>. The
  second component says whether \<open>Object.prototype\<close> has a \<open>y\<close> afterwards. The loop
  throws at once on a value that is not iterable; a later throw happens only after
  \<open>Object.prototype\<close> has acquired its \<open>y\<close>.
\<close>

definition normalize_language ::
  "bool \<Rightarrow> DataPoint awaited \<Rightarrow> (js_error + DataPoint list) \<times> bool" where
  "normalize_language polluted data =
     (case data of
        BadRequestResponse \<Rightarrow> (Inl TypeError, polluted)
      | Rows points \<Rightarrow>
          (case combine_loop ([], polluted) points of
             Inl e \<Rightarrow> (Inl e, True)
           | Inr (combined, polluted') \<Rightarrow> (Inr (Object_values combined), polluted')))"

text \<open>
  The notions in which the result of the loop is described: the sum of the counts of a
  bucket, the keys of a list in the order of their first occurrence, and the order in
  which an object enumerates its keys (array indices first and ascending, no array index
  after another key).
\<close>

definition bucket_sum :: "string \<Rightarrow> DataPoint list \<Rightarrow> int" where
  "bucket_sum k ps = sum_list (map y (filter (\<lambda>p. bucket_of p = k) ps))"

fun first_seen :: "string list \<Rightarrow> string list" where
  "first_seen [] = []"
| "first_seen (k # ks) = k # filter (\<lambda>k'. k' \<noteq> k) (first_seen ks)"

fun js_ordered :: "string list \<Rightarrow> bool" where
  "js_ordered [] = True"
| "js_ordered (k # ks) =
     (if is_array_index k then
        list_all (\<lambda>k'. \<not> is_array_index k' \<or> dec_val k \<le> dec_val k') ks \<and> js_ordered ks
      else list_all (\<lambda>k'. \<not> is_array_index k') ks)"

text \<open>The points that the loop does not pass over when no bucket key is \<open>__proto__\<close>.\<close>

definition kept :: "DataPoint list \<Rightarrow> DataPoint list" where
  "kept ps = filter (\<lambda>p. bucket_of p \<noteq> ''constructor'') ps"

text \<open>
  The counts for which every addition of the loop is exact: the sum of their magnitudes
  is at most \<open>2^53\<close>.
\<close>

definition safe_counts :: "DataPoint list \<Rightarrow> bool" where
  "safe_counts ps \<longleftrightarrow> sum_list (map (\<lambda>p. \<bar>y p\<bar>) ps) \<le> 2 ^ 53"

text \<open>
  What holds of \<open>combined\<close> after the loop has run over the points \<open>ps\<close>: of its keys,
  and, for counts whose additions are exact, of its sums.
\<close>

definition loop_invariant :: "DataPoint list \<Rightarrow> DataPoint jsobj \<Rightarrow> bool" where
  "loop_invariant ps c \<longleftrightarrow>
     distinct (map fst c) \<and>
     (\<forall>k e. map_of c k = Some e \<longrightarrow> x e = k) \<and>
     fst ` set c = bucket_of ` set ps \<and>
     js_ordered (map fst c) \<and>
     filter (\<lambda>k. \<not> is_array_index k) (map fst c) =
       filter (\<lambda>k. \<not> is_array_index k) (first_seen (map bucket_of ps))"

definition loop_sums :: "DataPoint list \<Rightarrow> DataPoint jsobj \<Rightarrow> bool" where
  "loop_sums ps c \<longleftrightarrow> (\<forall>k e. map_of c k = Some e \<longrightarrow> y e = bucket_sum k ps)"

definition log_call :: "'f query_call \<Rightarrow> 'f world \<Rightarrow> 'f world" where
  "log_call c w = w\<lparr>calls := calls w @ [c]\<rparr>"

text \<open>\<open>getMetricsData(websiteId, filters_search, limit, offset, type)\<close>\<close>

definition getMetricsData ::
  "'f backend \<Rightarrow> string \<Rightarrow> 'f FilterSet \<Rightarrow> int option \<Rightarrow> int option \<Rightarrow> string \<Rightarrow> 'f world \<Rightarrow>
     (js_error + DataPoint awaited) \<times> 'f world" where
  "getMetricsData be wid filters_search lmt ofs ty w =
     (if ty \<in> set (SESSION_COLUMNS be) then
        (let data = catch_badRequest (getSessionMetrics be wid ty filters_search lmt ofs);
             w' = log_call (SessionMetricsCall wid ty filters_search lmt ofs) w
         in if ty = ''language'' then
              (case normalize_language (proto_y w') data of
                 (Inl e, polluted) \<Rightarrow> (Inl e, w'\<lparr>proto_y := polluted\<rparr>)
               | (Inr points, polluted) \<Rightarrow> (Inr (Rows points), w'\<lparr>proto_y := polluted\<rparr>))
            else (Inr data, w'))
      else if ty \<in> set (EVENT_COLUMNS be) then
        (let data = catch_badRequest (getPageviewMetrics be wid ty filters_search lmt ofs);
             w' = log_call (PageviewMetricsCall wid ty filters_search lmt ofs) w
         in (Inr data, w'))
      else (Inr (Rows []), w))"

text \<open>
  For a dimension other than \<open>language\<close>, what \<open>getMetricsData\<close> returns and which
  query it issues.
\<close>

definition awaited_metrics ::
  "'f backend \<Rightarrow> string \<Rightarrow> 'f FilterSet \<Rightarrow> int option \<Rightarrow> int option \<Rightarrow> string \<Rightarrow>
     DataPoint awaited" where
  "awaited_metrics be wid fs lmt ofs ty =
     (if ty \<in> set (SESSION_COLUMNS be) then
        catch_badRequest (getSessionMetrics be wid ty fs lmt ofs)
      else if ty \<in> set (EVENT_COLUMNS be) then
        catch_badRequest (getPageviewMetrics be wid ty fs lmt ofs)
      else Rows [])"

definition metrics_calls ::
  "'f backend \<Rightarrow> string \<Rightarrow> 'f FilterSet \<Rightarrow> int option \<Rightarrow> int option \<Rightarrow> string \<Rightarrow>
     'f query_call list" where
  "metrics_calls be wid fs lmt ofs ty =
     (if ty \<in> set (SESSION_COLUMNS be) then [SessionMetricsCall wid ty fs lmt ofs]
      else if ty \<in> set (EVENT_COLUMNS be) then [PageviewMetricsCall wid ty fs lmt ofs]
      else [])"

subsection \<open>The display formatter\<close>

record FormattedItem = DataPoint +
  name :: table_value
  icon :: "string option"

text \<open>The first \<open>switch\<close>: the table of the dimension, \<open>undefined\<close> (here \<open>None\<close>) without one.\<close>

definition source_of :: "'f backend \<Rightarrow> string \<Rightarrow> (string \<Rightarrow> string option) option" where
  "source_of be ty =
     (if ty = ''os'' then Some (OS_NAMES be)
      else if ty = ''browser'' then Some (BROWSERS be)
      else if ty = ''country'' then Some (countryNames be)
      else None)"

text \<open>The \<open>switch\<close> inside the callback, which assigns the variable \<open>icon\<close>.\<close>

definition icon_of :: "string \<Rightarrow> string \<Rightarrow> string option" where
  "icon_of ty itemName =
     (if ty = ''os'' then Some (''//umami.guole.fun/images/os/'' @ itemName @ ''.png'')
      else if ty = ''browser'' then Some (''//umami.guole.fun/images/browser/'' @ itemName @ ''.png'')
      else if ty = ''country'' then Some (''//umami.guole.fun/images/country/'' @ itemName @ ''.png'')
      else if ty = ''device'' then Some (''//umami.guole.fun/images/device/'' @ itemName @ ''.png'')
      else Some [])"

definition format_item :: "(string \<Rightarrow> string option) \<Rightarrow> string \<Rightarrow> DataPoint \<Rightarrow> FormattedItem" where
  "format_item source ty item =
     (let itemName = replace_spaces (toLowerCase (x item)) in
      \<lparr>x = x item, y = y item, name = lookup_or source (x item), icon = icon_of ty itemName\<rparr>)"

text \<open>
  \<open>formattedData(data, type)\<close>. A table is an object, hence truthy. \<open>data.map\<close> is not a
  function when \<open>data\<close> is the \<open>Response\<close> of a caught failure.
\<close>

definition formattedData ::
  "'f backend \<Rightarrow> DataPoint awaited \<Rightarrow> string \<Rightarrow> js_error + FormattedItem list" where
  "formattedData be data ty =
     (case source_of be ty of
        None \<Rightarrow> Inr []
      | Some source \<Rightarrow>
          (case data of
             Rows items \<Rightarrow> Inr (map (format_item source ty) items)
           | BadRequestResponse \<Rightarrow> Inl TypeError))"

subsection \<open>The handler\<close>

datatype payload = Payload "FormattedItem list" "FormattedItem list" "FormattedItem list" StatComparison

datatype response =
    ParseErrorResponse
  | Unauthorized
  | BadRequest
  | Json payload

text \<open>The three fetches, in the order of the source.\<close>

definition fetch_breakdowns ::
  "'f backend \<Rightarrow> string \<Rightarrow> 'f FilterSet \<Rightarrow> int option \<Rightarrow> int option \<Rightarrow> 'f world \<Rightarrow>
     (js_error + DataPoint awaited \<times> DataPoint awaited \<times> DataPoint awaited) \<times> 'f world" where
  "fetch_breakdowns be wid filters_search lmt ofs w =
     (case getMetricsData be wid filters_search lmt ofs ''os'' w of
        (Inl e, w1) \<Rightarrow> (Inl e, w1)
      | (Inr osData, w1) \<Rightarrow>
          (case getMetricsData be wid filters_search lmt ofs ''browser'' w1 of
             (Inl e, w2) \<Rightarrow> (Inl e, w2)
           | (Inr browserData, w2) \<Rightarrow>
               (case getMetricsData be wid filters_search lmt ofs ''country'' w2 of
                  (Inl e, w3) \<Rightarrow> (Inl e, w3)
                | (Inr countryData, w3) \<Rightarrow> (Inr (osData, browserData, countryData), w3))))"

text \<open>
  The payload \<open>{os, browser, country, stats}\<close>. Each \<open>|| []\<close> of the source is dead: an
  array and an object are truthy.
\<close>

definition assemble ::
  "'f backend \<Rightarrow> DataPoint awaited \<Rightarrow> DataPoint awaited \<Rightarrow> DataPoint awaited \<Rightarrow> StatComparison \<Rightarrow>
     js_error + response" where
  "assemble be osData browserData countryData st =
     (case formattedData be osData ''os'' of
        Inl e \<Rightarrow> Inl e
      | Inr os \<Rightarrow>
          (case formattedData be browserData ''browser'' of
             Inl e \<Rightarrow> Inl e
           | Inr browser \<Rightarrow>
               (case formattedData be countryData ''country'' of
                  Inl e \<Rightarrow> Inl e
                | Inr country \<Rightarrow> Inr (Json (Payload os browser country st)))))"

definition lift_filters :: "'f jsobj \<Rightarrow> 'f FilterSet" where
  "lift_filters fs = map (\<lambda>(k, v). (k, PassThrough v)) fs"

text \<open>The two filter sets of the stats queries and the filter set of the breakdown queries.\<close>

definition primary_filters :: "'f request \<Rightarrow> 'f FilterSet" where
  "primary_filters req = with_dates (lift_filters (getRequestFilters req)) (startDate req) (endDate req)"

definition compare_filters :: "'f request \<Rightarrow> 'f FilterSet" where
  "compare_filters req =
     with_dates (lift_filters (getRequestFilters req)) (compareStartDate req) (compareEndDate req)"

definition filters_search :: "'f backend \<Rightarrow> 'f request \<Rightarrow> 'f FilterSet" where
  "filters_search be req =
     add_search (FILTER_COLUMNS be) (OPERATORS_contains be)
       (with_dates (lift_filters (getRequestFilters req)) (startDate req) (endDate req))
       (type req) (search req)"

text \<open>
  \<open>GET\<close>: the result is a response or an exception that leaves the handler, together with
  the world after it.
\<close>

definition GET :: "'f backend \<Rightarrow> 'f request \<Rightarrow> 'f world \<Rightarrow> (js_error + response) \<times> 'f world" where
  "GET be req w =
     (if parse_error req then (Inr ParseErrorResponse, w)
      else if \<not> canViewWebsite req then (Inr Unauthorized, w)
      else
        (let metrics = catch_badRequest (getWebsiteStats be (websiteId req) (primary_filters req));
             w1 = log_call (WebsiteStatsCall (websiteId req) (primary_filters req)) w;
             prevPeriod = catch_badRequest (getWebsiteStats be (websiteId req) (compare_filters req));
             w2 = log_call (WebsiteStatsCall (websiteId req) (compare_filters req)) w1
         in case stats (conversions be) metrics prevPeriod of
              Inl e \<Rightarrow> (Inl e, w2)
            | Inr st \<Rightarrow>
                (case fetch_breakdowns be (websiteId req) (filters_search be req)
                        (limit req) (offset req) w2 of
                   (Inl e, w3) \<Rightarrow> (Inl e, w3)
                 | (Inr (osData, browserData, countryData), w3) \<Rightarrow>
                     (assemble be osData browserData countryData st, w3))))"

subsection \<open>An example environment\<close>

text \<open>
  Values for the imported constants and query functions, used where a property is
  evaluated on a concrete request. The string conversion reads a string of decimal digits
  and gives \<open>NaN\<close> for every other string; the examples hold no other numeric string.
\<close>

definition example_conversions :: number_env where
  "example_conversions =
     \<lparr>StringToNumber = (\<lambda>s. if s \<noteq> [] \<and> list_all is_digit s then Finite (real (dec_val s)) else NaN),
      BigIntToNumber = (\<lambda>i. Finite (real_of_int i))\<rparr>"

definition example_stats :: "StatRow settled" where
  "example_stats =
     Fulfilled [[(''pageviews'', JNum (Finite 150)), (''visitors'', JBigInt 2),
                 (''visits'', JStr ''150''), (''bounces'', JNull), (''totaltime'', JStr ''n/a'')]]"

definition example_sessions :: "string \<Rightarrow> DataPoint settled" where
  "example_sessions ty =
     (if ty = ''os'' then Fulfilled [\<lparr>x = ''Mac OS'', y = 100\<rparr>, \<lparr>x = ''Windows 10'', y = 50\<rparr>]
      else if ty = ''browser'' then Fulfilled [\<lparr>x = ''chrome'', y = 100\<rparr>, \<lparr>x = ''firefox'', y = 50\<rparr>]
      else if ty = ''country'' then Fulfilled [\<lparr>x = ''US'', y = 100\<rparr>, \<lparr>x = ''XX'', y = 50\<rparr>]
      else Fulfilled [])"

definition example_backend :: "string backend" where
  "example_backend =
     \<lparr>SESSION_COLUMNS =
        [''browser'', ''os'', ''device'', ''screen'', ''language'', ''country'', ''region'', ''city''],
      EVENT_COLUMNS = [''url'', ''referrer'', ''title'', ''query'', ''event'', ''tag''],
      FILTER_COLUMNS = map_of [(''url'', ''url_path''), (''referrer'', ''referrer_domain'')],
      OPERATORS_contains = ''c'',
      OS_NAMES = map_of [(''Mac OS'', ''macOS''), (''Windows 10'', ''Windows 10/11'')],
      BROWSERS = map_of [(''chrome'', ''Chrome''), (''firefox'', ''Firefox'')],
      countryNames = map_of [(''US'', ''United States''), (''DE'', ''Germany'')],
      conversions = example_conversions,
      getWebsiteStats = (\<lambda>wid fs. example_stats),
      getSessionMetrics = (\<lambda>wid ty fs lmt ofs. example_sessions ty),
      getPageviewMetrics = (\<lambda>wid ty fs lmt ofs. Fulfilled [])\<rparr>"

definition example_request :: "string request" where
  "example_request =
     \<lparr>parse_error = False, canViewWebsite = True, websiteId = ''site'', type = ''url'',
      limit = None, offset = None, search = Some ''docs'', startDate = 1000, endDate = 2000,
      compareStartDate = 0, compareEndDate = 1000,
      getRequestFilters = [(''country'', ''US'')]\<rparr>"

definition fresh_world :: "string world" where
  "fresh_world = \<lparr>calls = [], proto_y = False\<rparr>"

section \<open>Properties\<close>

lemmas string_defs = toLowerCase_def lower_char_def upper_letters_def lower_letters_def
  split_first_def replace_spaces_def

lemmas object_defs = get_own_def has_own_def Object_keys_def Object_values_def create_own_def
  define_own_def js_assign_def is_array_index_def is_digit_def digit_val_def dec_val_def
  bucket_of_def

lemmas table_defs = lookup_or_def table_read_def prototype_members_def

subsection \<open>Plain objects\<close>

lemma has_own_iff: "has_own obj k \<longleftrightarrow> map_of obj k \<noteq> None"
  by (simp add: has_own_def Object_keys_def map_of_eq_None_iff)

lemma keys_replace_own: "Object_keys (replace_own obj k v) = Object_keys obj"
  by (induction obj) (auto simp: Object_keys_def)

lemma set_insert_index: "set (insert_index k v obj) = insert (k, v) (set obj)"
  by (induction obj) (auto split: if_splits)

lemma keys_create_own: "set (Object_keys (create_own obj k v)) = insert k (set (Object_keys obj))"
  by (simp add: create_own_def Object_keys_def set_insert_index)

lemma keys_define_own: "set (Object_keys (define_own obj k v)) = insert k (set (Object_keys obj))"
  by (auto simp: define_own_def keys_replace_own keys_create_own has_own_def)

lemma keys_js_assign:
  "set (Object_keys (js_assign obj k v)) =
     (if k = ''__proto__'' then set (Object_keys obj) else insert k (set (Object_keys obj)))"
  by (simp add: js_assign_def keys_define_own)

lemma map_of_replace_own:
  "map_of (replace_own obj k v) k' =
     (if k' = k \<and> map_of obj k \<noteq> None then Some v else map_of obj k')"
  by (induction obj) auto

lemma map_of_insert_index:
  "map_of obj k = None \<Longrightarrow>
   map_of (insert_index k v obj) k' = (if k' = k then Some v else map_of obj k')"
  by (induction obj) (auto split: if_splits)

lemma map_of_create_own:
  "map_of obj k = None \<Longrightarrow>
   map_of (create_own obj k v) k' = (if k' = k then Some v else map_of obj k')"
  by (auto simp: create_own_def map_of_insert_index map_add_def split: option.splits)

lemma get_define_own:
  "get_own (define_own obj k v) k' = (if k' = k then Some v else get_own obj k')"
  by (auto simp: define_own_def get_own_def has_own_iff map_of_replace_own map_of_create_own)

lemma get_js_assign:
  "get_own (js_assign obj k v) k' =
     (if k = ''__proto__'' then get_own obj k' else if k' = k then Some v else get_own obj k')"
  by (simp add: js_assign_def get_define_own)

lemma distinct_insert_index:
  "k \<notin> fst ` set obj \<Longrightarrow> distinct (map fst obj) \<Longrightarrow> distinct (map fst (insert_index k v obj))"
  by (induction obj) (auto simp: set_insert_index)

lemma distinct_define_own:
  "distinct (Object_keys obj) \<Longrightarrow> distinct (Object_keys (define_own obj k v))"
  using keys_replace_own[of obj k v]
  by (auto simp: define_own_def create_own_def distinct_insert_index has_own_def Object_keys_def)

lemma distinct_js_assign:
  "distinct (Object_keys obj) \<Longrightarrow> distinct (Object_keys (js_assign obj k v))"
  by (simp add: js_assign_def distinct_define_own)

text \<open>Two array indices with the same numeric value are the same string.\<close>

lemma digit_val_less: "is_digit c \<Longrightarrow> digit_val c < 10"
  by (auto simp: is_digit_def digit_val_def)

lemma digit_val_inj: "is_digit c \<Longrightarrow> is_digit d \<Longrightarrow> digit_val c = digit_val d \<Longrightarrow> c = d"
  by (auto simp: is_digit_def digit_val_def)

lemma digit_val_pos: "is_digit c \<Longrightarrow> c \<noteq> CHR ''0'' \<Longrightarrow> 0 < digit_val c"
  by (auto simp: is_digit_def digit_val_def)

lemma dec_val_snoc: "dec_val (s @ [c]) = 10 * dec_val s + digit_val c"
  by (simp add: dec_val_def)

lemma no_leading_zero_butlast: "no_leading_zero (s @ [c]) \<Longrightarrow> no_leading_zero s"
  by (cases s) (auto simp: no_leading_zero_def)

lemma dec_val_pos: "no_leading_zero s \<Longrightarrow> s \<noteq> [] \<Longrightarrow> 0 < dec_val s"
proof (induction s rule: rev_induct)
  case Nil
  then show ?case by simp
next
  case (snoc c s)
  show ?case
  proof (cases "s = []")
    case True
    with snoc.prems show ?thesis
      by (simp add: dec_val_def no_leading_zero_def digit_val_pos)
  next
    case False
    with snoc have "0 < dec_val s"
      using no_leading_zero_butlast by blast
    then show ?thesis by (simp add: dec_val_snoc)
  qed
qed

lemma dec_val_inj_aux:
  "no_leading_zero s \<Longrightarrow> no_leading_zero t \<Longrightarrow> dec_val s = dec_val t \<Longrightarrow> s = t"
proof (induction s arbitrary: t rule: rev_induct)
  case Nil
  then show ?case
    using dec_val_pos[of t] by (cases "t = []") (auto simp: dec_val_def)
next
  case (snoc c s)
  from snoc.prems have pos: "0 < dec_val (s @ [c])"
    using dec_val_pos by blast
  with snoc.prems have "t \<noteq> []" by (auto simp: dec_val_def)
  then obtain t' d where t: "t = t' @ [d]"
    by (metis rev_exhaust)
  from snoc.prems t have dc: "is_digit c" "is_digit d"
    by (auto simp: no_leading_zero_def)
  from snoc.prems t have eq: "10 * dec_val s + digit_val c = 10 * dec_val t' + digit_val d"
    by (simp add: dec_val_snoc)
  with dc have "digit_val c = digit_val d" "dec_val s = dec_val t'"
    using digit_val_less[of c] digit_val_less[of d] by presburger+
  moreover have "no_leading_zero s" "no_leading_zero t'"
    using snoc.prems t no_leading_zero_butlast by blast+
  ultimately show ?case
    using snoc.IH[of t'] dc t digit_val_inj by auto
qed

lemma is_array_index_cases:
  "is_array_index s \<Longrightarrow> s = ''0'' \<or> (no_leading_zero s \<and> s \<noteq> [])"
  by (auto simp: is_array_index_def no_leading_zero_def)

lemma dec_val_inj:
  assumes "is_array_index s" and "is_array_index t" and "dec_val s = dec_val t"
  shows "s = t"
proof -
  have z: "dec_val ''0'' = 0" by (simp add: dec_val_def digit_val_def)
  from assms(1,2) is_array_index_cases
  consider "s = ''0''" "t = ''0''"
    | "s = ''0''" "no_leading_zero t" "t \<noteq> []"
    | "no_leading_zero s" "s \<noteq> []" "t = ''0''"
    | "no_leading_zero s" "no_leading_zero t"
    by blast
  then show ?thesis
  proof cases
    case 1
    then show ?thesis by simp
  next
    case 2
    then show ?thesis using assms(3) z dec_val_pos[of t] by simp
  next
    case 3
    then show ?thesis using assms(3) z dec_val_pos[of s] by simp
  next
    case 4
    then show ?thesis using assms(3) dec_val_inj_aux by blast
  qed
qed

subsection \<open>The display formatter\<close>

lemma source_of_Some_iff:
  "(\<exists>src. source_of be ty = Some src) \<longleftrightarrow> ty = ''os'' \<or> ty = ''browser'' \<or> ty = ''country''"
  by (simp add: source_of_def)

lemma icon_of_known:
  "ty = ''os'' \<or> ty = ''browser'' \<or> ty = ''country'' \<Longrightarrow>
   icon_of ty s = Some (''//umami.guole.fun/images/'' @ ty @ ''/'' @ s @ ''.png'')"
  by (auto simp: icon_of_def)

text \<open>
  Claim C10. Whenever \<open>formattedData\<close> returns a non-empty sequence, the dimension is one
  of os, browser and country, and the icon of every item is the non-empty string
  \<open>//umami.guole.fun/images/<dimension>/<slug>.png\<close>, where the slug is the lower-cased
  \<open>x\<close> of the item with its spaces replaced by hyphens: the \<open>device\<close> and default branches
  of the inner switch are not reached, and no icon is empty or undefined.
\<close>

theorem formattedData_icon:
  assumes "formattedData be data ty = Inr out" and "out \<noteq> []"
  shows "(ty = ''os'' \<or> ty = ''browser'' \<or> ty = ''country'') \<and>
         list_all (\<lambda>item.
             icon item =
               Some (''//umami.guole.fun/images/'' @ ty @ ''/'' @
                     replace_spaces (toLowerCase (x item)) @ ''.png'')
             \<and> icon item \<noteq> Some [] \<and> icon item \<noteq> None) out"
proof -
  from assms obtain src where src: "source_of be ty = Some src"
    by (cases "source_of be ty") (auto simp: formattedData_def)
  then have ty: "ty = ''os'' \<or> ty = ''browser'' \<or> ty = ''country''"
    using source_of_Some_iff[of be ty] by blast
  from assms src obtain items where out: "out = map (format_item src ty) items"
    by (cases data) (auto simp: formattedData_def)
  show ?thesis
    using ty by (auto simp: out list_all_iff format_item_def icon_of_known)
qed

theorem formattedData_icon_witness:
  "formattedData example_backend (Rows [\<lparr>x = ''Mac OS'', y = 10\<rparr>]) ''os'' =
     Inr [\<lparr>x = ''Mac OS'', y = 10, name = Text ''macOS'',
           icon = Some ''//umami.guole.fun/images/os/mac-os.png''\<rparr>] \<and>
   list_all (\<lambda>item. icon item = Some ''//umami.guole.fun/images/os/mac-os.png'')
     [\<lparr>x = ''Mac OS'', y = 10, name = Text ''macOS'',
       icon = Some ''//umami.guole.fun/images/os/mac-os.png''\<rparr>]"
proof -
  have h: "formattedData example_backend (Rows [\<lparr>x = ''Mac OS'', y = 10\<rparr>]) ''os'' =
     Inr [\<lparr>x = ''Mac OS'', y = 10, name = Text ''macOS'',
           icon = Some ''//umami.guole.fun/images/os/mac-os.png''\<rparr>]"
    by (simp add: formattedData_def source_of_def example_backend_def format_item_def
        table_defs icon_of_def string_defs)
  from formattedData_icon [OF h] show ?thesis
    using h by (simp add: string_defs)
qed

lemma y_format_item: "y \<circ> format_item src ty = y"
  by (rule ext) (simp add: format_item_def)

lemma x_format_item: "x \<circ> format_item src ty = x"
  by (rule ext) (simp add: format_item_def)

text \<open>
  Claim C5, as amended. For a dimension among os, browser and country, \<open>formattedData\<close>
  returns a sequence of the length of its input, with the same sum of the \<open>y\<close> values
  and with the \<open>x\<close> and \<open>y\<close> of the input points in the input order. For every other
  dimension it returns the empty sequence, whatever the input.
\<close>

theorem formattedData_preserves:
  "((ty = ''os'' \<or> ty = ''browser'' \<or> ty = ''country'') \<longrightarrow>
      (\<exists>out. formattedData be (Rows items) ty = Inr out \<and>
             length out = length items \<and>
             sum_list (map y out) = sum_list (map y items) \<and>
             map x out = map x items \<and> map y out = map y items)) \<and>
   (\<not> (ty = ''os'' \<or> ty = ''browser'' \<or> ty = ''country'') \<longrightarrow>
      formattedData be (Rows items) ty = Inr [])"
  by (auto simp: formattedData_def source_of_def y_format_item x_format_item)

theorem formattedData_preserves_witness:
  "formattedData example_backend
     (Rows [\<lparr>x = ''chrome'', y = 100\<rparr>, \<lparr>x = ''firefox'', y = 50\<rparr>]) ''browser'' =
     Inr [\<lparr>x = ''chrome'', y = 100, name = Text ''Chrome'',
           icon = Some ''//umami.guole.fun/images/browser/chrome.png''\<rparr>,
          \<lparr>x = ''firefox'', y = 50, name = Text ''Firefox'',
           icon = Some ''//umami.guole.fun/images/browser/firefox.png''\<rparr>] \<and>
   formattedData example_backend
     (Rows [\<lparr>x = ''chrome'', y = 100\<rparr>, \<lparr>x = ''firefox'', y = 50\<rparr>]) ''screen'' = Inr []"
  using
    formattedData_preserves [of "''browser''" example_backend
      "[\<lparr>x = ''chrome'', y = 100\<rparr>, \<lparr>x = ''firefox'', y = 50\<rparr>]"]
    formattedData_preserves [of "''screen''" example_backend
      "[\<lparr>x = ''chrome'', y = 100\<rparr>, \<lparr>x = ''firefox'', y = 50\<rparr>]"]
  by (simp add: formattedData_def source_of_def example_backend_def format_item_def
        table_defs icon_of_def string_defs)

text \<open>
  The claim as it was stated fails for the dimension \<open>device\<close>: one point goes in, none
  comes out, and the sum of the counts falls from 7 to 0.
\<close>

theorem formattedData_preserves_counterexample:
  "formattedData example_backend (Rows [\<lparr>x = ''mobile'', y = 7\<rparr>]) ''device'' = Inr [] \<and>
   length ([] :: FormattedItem list) \<noteq> length [\<lparr>x = ''mobile'', y = 7\<rparr>] \<and>
   sum_list (map y ([] :: FormattedItem list)) \<noteq> sum_list (map y [\<lparr>x = ''mobile'', y = 7\<rparr>])"
  by (simp add: formattedData_def source_of_def)

text \<open>
  Claim C6, as amended. Let \<open>table\<close> be the table that the dimension selects, which it
  does exactly for os, browser and country, and let no \<open>x\<close> of the points be the name of
  a member of \<open>Object.prototype\<close>. Then every point is formatted, in place, to the item
  with the same \<open>x\<close> and \<open>y\<close>, with the name that the table has for \<open>x\<close> when that name
  is not the empty string, and with \<open>x\<close> itself for a name when the table has none for
  \<open>x\<close> or an empty one, and with the icon \<open>//umami.guole.fun/images/<dimension>/<slug>.png\<close>,
  the slug being the lower-cased \<open>x\<close> with its spaces replaced by hyphens. With a table of
  countries that has no entry \<open>XX\<close>, the point \<open>XX\<close> with the count 4 gets the name \<open>XX\<close>
  and the icon \<open>//umami.guole.fun/images/country/xx.png\<close>.
\<close>

theorem formattedData_name:
  assumes "source_of be ty = Some table"
    and "list_all (\<lambda>p. x p \<notin> set prototype_members) items"
  shows "(ty = ''os'' \<or> ty = ''browser'' \<or> ty = ''country'') \<and>
         formattedData be (Rows items) ty =
           Inr (map (\<lambda>p. \<lparr>x = x p, y = y p,
                          name = (case table (x p) of
                                    Some n \<Rightarrow> if n \<noteq> [] then Text n else Text (x p)
                                  | None \<Rightarrow> Text (x p)),
                          icon = Some (''//umami.guole.fun/images/'' @ ty @ ''/'' @
                                       replace_spaces (toLowerCase (x p)) @ ''.png'')\<rparr>) items) \<and>
         (countryNames be ''XX'' = None \<longrightarrow>
            formattedData be (Rows [\<lparr>x = ''XX'', y = 4\<rparr>]) ''country'' =
              Inr [\<lparr>x = ''XX'', y = 4, name = Text ''XX'',
                    icon = Some ''//umami.guole.fun/images/country/xx.png''\<rparr>])"
proof -
  have ty: "ty = ''os'' \<or> ty = ''browser'' \<or> ty = ''country''"
    using assms(1) source_of_Some_iff[of be ty] by blast
  have "format_item table ty p =
          \<lparr>x = x p, y = y p,
           name = (case table (x p) of
                     Some n \<Rightarrow> if n \<noteq> [] then Text n else Text (x p)
                   | None \<Rightarrow> Text (x p)),
           icon = Some (''//umami.guole.fun/images/'' @ ty @ ''/'' @
                        replace_spaces (toLowerCase (x p)) @ ''.png'')\<rparr>"
    if "x p \<notin> set prototype_members" for p
    using that ty
    by (auto simp: format_item_def lookup_or_def table_read_def icon_of_known split: option.splits)
  then have all: "formattedData be (Rows items) ty =
           Inr (map (\<lambda>p. \<lparr>x = x p, y = y p,
                          name = (case table (x p) of
                                    Some n \<Rightarrow> if n \<noteq> [] then Text n else Text (x p)
                                  | None \<Rightarrow> Text (x p)),
                          icon = Some (''//umami.guole.fun/images/'' @ ty @ ''/'' @
                                       replace_spaces (toLowerCase (x p)) @ ''.png'')\<rparr>) items)"
    using assms by (simp add: formattedData_def list_all_iff)
  have xx: "formattedData be (Rows [\<lparr>x = ''XX'', y = 4\<rparr>]) ''country'' =
              Inr [\<lparr>x = ''XX'', y = 4, name = Text ''XX'',
                    icon = Some ''//umami.guole.fun/images/country/xx.png''\<rparr>]"
    if "countryNames be ''XX'' = None"
    using that
    by (simp add: formattedData_def source_of_def format_item_def table_defs icon_of_def
        string_defs)
  from ty all xx show ?thesis by blast
qed

text \<open>
  In the tables of the example, \<open>Windows 10\<close> has a name and \<open>Chrome OS\<close> has none; both
  have a space and upper-case letters. The code \<open>XX\<close> has no entry, \<open>US\<close> has one.
\<close>

theorem formattedData_name_witness:
  "source_of example_backend ''os'' = Some (OS_NAMES example_backend) \<and>
   list_all (\<lambda>p. x p \<notin> set prototype_members)
     [\<lparr>x = ''Windows 10'', y = 7\<rparr>, \<lparr>x = ''Chrome OS'', y = 2\<rparr>] \<and>
   formattedData example_backend
     (Rows [\<lparr>x = ''Windows 10'', y = 7\<rparr>, \<lparr>x = ''Chrome OS'', y = 2\<rparr>]) ''os'' =
     Inr [\<lparr>x = ''Windows 10'', y = 7, name = Text ''Windows 10/11'',
           icon = Some ''//umami.guole.fun/images/os/windows-10.png''\<rparr>,
          \<lparr>x = ''Chrome OS'', y = 2, name = Text ''Chrome OS'',
           icon = Some ''//umami.guole.fun/images/os/chrome-os.png''\<rparr>] \<and>
   countryNames example_backend ''XX'' = None \<and>
   formattedData example_backend (Rows [\<lparr>x = ''XX'', y = 4\<rparr>, \<lparr>x = ''US'', y = 9\<rparr>]) ''country'' =
     Inr [\<lparr>x = ''XX'', y = 4, name = Text ''XX'',
           icon = Some ''//umami.guole.fun/images/country/xx.png''\<rparr>,
          \<lparr>x = ''US'', y = 9, name = Text ''United States'',
           icon = Some ''//umami.guole.fun/images/country/us.png''\<rparr>]"
proof -
  have s: "source_of example_backend ''os'' = Some (OS_NAMES example_backend)"
    by (simp add: source_of_def)
  have t: "list_all (\<lambda>p. x p \<notin> set prototype_members)
             [\<lparr>x = ''Windows 10'', y = 7\<rparr>, \<lparr>x = ''Chrome OS'', y = 2\<rparr>]"
    by (simp add: prototype_members_def)
  have s': "source_of example_backend ''country'' = Some (countryNames example_backend)"
    by (simp add: source_of_def)
  have t': "list_all (\<lambda>p. x p \<notin> set prototype_members)
             [\<lparr>x = ''XX'', y = 4\<rparr>, \<lparr>x = ''US'', y = 9\<rparr>]"
    by (simp add: prototype_members_def)
  have n: "countryNames example_backend ''XX'' = None"
    by (simp add: example_backend_def)
  from formattedData_name [OF s t] formattedData_name [OF s' t'] show ?thesis
    using s t n by (simp add: example_backend_def string_defs)
qed

text \<open>
  The claim as it was stated gives an item the entry of the table whenever there is one,
  and the raw \<open>x\<close> otherwise. An entry that is the empty string is present and is not the
  name: \<open>||\<close> falls back to \<open>x\<close>. And \<open>constructor\<close> has no entry in the table of the
  example, yet the name is not the raw \<open>x\<close> but the function that the table inherits.
\<close>

theorem formattedData_name_counterexample:
  "formattedData (example_backend\<lparr>OS_NAMES := map_of [(''Linux'', [])]\<rparr>)
     (Rows [\<lparr>x = ''Linux'', y = 1\<rparr>]) ''os'' =
     Inr [\<lparr>x = ''Linux'', y = 1, name = Text ''Linux'',
           icon = Some ''//umami.guole.fun/images/os/linux.png''\<rparr>] \<and>
   OS_NAMES example_backend ''constructor'' = None \<and>
   formattedData example_backend (Rows [\<lparr>x = ''constructor'', y = 1\<rparr>]) ''os'' =
     Inr [\<lparr>x = ''constructor'', y = 1, name = Member ''constructor'',
           icon = Some ''//umami.guole.fun/images/os/constructor.png''\<rparr>]"
  by (simp add: formattedData_def source_of_def example_backend_def format_item_def
      table_defs icon_of_def string_defs)

subsection \<open>The metrics fetcher\<close>

text \<open>
  Claim C7. For a dimension name that is in neither \<open>SESSION_COLUMNS\<close> nor
  \<open>EVENT_COLUMNS\<close>, \<open>getMetricsData\<close> returns the empty sequence, which is no error,
  and leaves the world as it was: no query call is added to the log.
\<close>

theorem getMetricsData_unrecognized:
  assumes "ty \<notin> set (SESSION_COLUMNS be)" and "ty \<notin> set (EVENT_COLUMNS be)"
  shows "getMetricsData be wid fs lmt ofs ty w = (Inr (Rows []), w)"
  using assms by (simp add: getMetricsData_def)

theorem getMetricsData_unrecognized_witness:
  "''weather'' \<notin> set (SESSION_COLUMNS example_backend) \<and>
   ''weather'' \<notin> set (EVENT_COLUMNS example_backend) \<and>
   getMetricsData example_backend ''site'' [] None None ''weather'' fresh_world =
     (Inr (Rows []), fresh_world)"
  using getMetricsData_unrecognized [of "''weather''" example_backend "''site''" "[]" None None fresh_world]
  by (simp add: example_backend_def)

lemma getMetricsData_plain:
  "ty \<noteq> ''language'' \<Longrightarrow>
   getMetricsData be wid fs lmt ofs ty w =
     (Inr (awaited_metrics be wid fs lmt ofs ty),
      w\<lparr>calls := calls w @ metrics_calls be wid fs lmt ofs ty\<rparr>)"
  by (simp add: getMetricsData_def awaited_metrics_def metrics_calls_def log_call_def Let_def)

lemma fetch_breakdowns_eq:
  "fetch_breakdowns be wid fs lmt ofs w =
     (Inr (awaited_metrics be wid fs lmt ofs ''os'',
           awaited_metrics be wid fs lmt ofs ''browser'',
           awaited_metrics be wid fs lmt ofs ''country''),
      w\<lparr>calls := calls w @ metrics_calls be wid fs lmt ofs ''os'' @
                  metrics_calls be wid fs lmt ofs ''browser'' @
                  metrics_calls be wid fs lmt ofs ''country''\<rparr>)"
  by (simp add: fetch_breakdowns_def getMetricsData_plain)

subsection \<open>The stats differencer\<close>

lemma toNumberOrZero_not_NaN: "toNumberOrZero env v \<noteq> NaN \<and> toNumberOrZero env v \<noteq> NegZero"
  by (cases "Number env v") (auto simp: toNumberOrZero_def or_zero_def)

lemma toNumberOrZero_NaN: "Number env v = NaN \<Longrightarrow> toNumberOrZero env v = Finite 0"
  by (simp add: toNumberOrZero_def or_zero_def)

lemma toNumberOrZero_truthy: "truthy (Number env v) \<Longrightarrow> toNumberOrZero env v = Number env v"
  by (simp add: toNumberOrZero_def or_zero_def)

lemma toNumberOrZero_sign: "non_negative (toNumberOrZero env v) \<longleftrightarrow> \<not> negative (Number env v)"
  by (cases "Number env v") (auto simp: toNumberOrZero_def or_zero_def)

lemma stats_reduce_Some:
  "stats_reduce env cur (Some p) keys obj =
     Inr (fold (\<lambda>key acc. js_assign acc key (stat_pair env cur p key)) keys obj)"
  by (induction keys arbitrary: obj) simp_all

lemma stats_reduce_None:
  "stats_reduce env cur None keys obj = (if keys = [] then Inr obj else Inl TypeError)"
  by (cases keys) simp_all

lemma keys_fold_assign:
  "set (Object_keys (fold (\<lambda>key acc. js_assign acc key (f key)) keys obj)) =
     set (Object_keys obj) \<union> (set keys - {''__proto__''})"
  by (induction keys arbitrary: obj) (auto simp: keys_js_assign)

lemma distinct_fold_assign:
  "distinct (Object_keys obj) \<Longrightarrow>
   distinct (Object_keys (fold (\<lambda>key acc. js_assign acc key (f key)) keys obj))"
  by (induction keys arbitrary: obj) (auto simp: distinct_js_assign)

lemma get_fold_assign:
  "get_own (fold (\<lambda>key acc. js_assign acc key (f key)) keys obj) k =
     (if k \<in> set keys \<and> k \<noteq> ''__proto__'' then Some (f k) else get_own obj k)"
  by (induction keys arbitrary: obj) (auto simp: get_js_assign)

text \<open>
  Claim C1, as amended. Let the first rows of the two periods have the same key set \<open>K\<close>,
  and let \<open>__proto__\<close> be no key. Then the comparison has exactly the key set \<open>K\<close>, and
  under every key it holds \<open>{value: Number(current[k]) || 0, prev: Number(previous[k]) || 0}\<close>.
  Neither number is \<open>NaN\<close>: an input whose conversion is \<open>NaN\<close> (a non-numeric or absent
  one) gives 0. A number of the comparison is non-negative exactly when the conversion of
  its input is not negative: a negative input comes out as it is.
\<close>

theorem stats_comparison:
  assumes "set (Object_keys current) = K" and "set (Object_keys previous) = K"
    and "''__proto__'' \<notin> K"
  shows "\<exists>out. stats env (Rows (current # rest)) (Rows (previous # rest')) = Inr out \<and>
           set (Object_keys out) = K \<and> distinct (Object_keys out) \<and>
           list_all (\<lambda>k. get_own out k =
               Some \<lparr>value = toNumberOrZero env (row_get current k),
                     prev = toNumberOrZero env (row_get previous k)\<rparr>) (Object_keys out) \<and>
           list_all (\<lambda>(k, e). value e \<noteq> NaN \<and> prev e \<noteq> NaN \<and>
               (Number env (row_get current k) = NaN \<longrightarrow> value e = Finite 0) \<and>
               (Number env (row_get previous k) = NaN \<longrightarrow> prev e = Finite 0) \<and>
               (non_negative (value e) \<longleftrightarrow> \<not> negative (Number env (row_get current k))) \<and>
               (non_negative (prev e) \<longleftrightarrow> \<not> negative (Number env (row_get previous k)))) out"
proof -
  let ?out = "fold (\<lambda>key acc. js_assign acc key (stat_pair env current previous key))
                (Object_keys current) []"
  have st: "stats env (Rows (current # rest)) (Rows (previous # rest')) = Inr ?out"
    by (simp add: stats_def first_row_def stats_reduce_Some)
  have keys: "set (Object_keys ?out) = K"
    using assms by (simp add: keys_fold_assign) (simp add: Object_keys_def)
  have dist: "distinct (Object_keys ?out)"
    by (rule distinct_fold_assign) (simp add: Object_keys_def)
  have get: "get_own ?out k = Some (stat_pair env current previous k)" if "k \<in> K" for k
    using that assms by (auto simp: get_fold_assign)
  have entries: "e = stat_pair env current previous k" if "(k, e) \<in> set ?out" for k e
  proof -
    from that have "k \<in> K" using keys by (force simp: Object_keys_def)
    moreover from that dist have "get_own ?out k = Some e"
      by (simp add: get_own_def Object_keys_def)
    ultimately show ?thesis using get by simp
  qed
  have a: "list_all (\<lambda>k. get_own ?out k =
               Some \<lparr>value = toNumberOrZero env (row_get current k),
                     prev = toNumberOrZero env (row_get previous k)\<rparr>) (Object_keys ?out)"
    using get keys by (auto simp: list_all_iff stat_pair_def)
  have b: "list_all (\<lambda>(k, e). value e \<noteq> NaN \<and> prev e \<noteq> NaN \<and>
               (Number env (row_get current k) = NaN \<longrightarrow> value e = Finite 0) \<and>
               (Number env (row_get previous k) = NaN \<longrightarrow> prev e = Finite 0) \<and>
               (non_negative (value e) \<longleftrightarrow> \<not> negative (Number env (row_get current k))) \<and>
               (non_negative (prev e) \<longleftrightarrow> \<not> negative (Number env (row_get previous k)))) ?out"
    unfolding list_all_iff
  proof (intro ballI, clarify)
    fix k e assume "(k, e) \<in> set ?out"
    then have e: "e = stat_pair env current previous k" by (rule entries)
    show "value e \<noteq> NaN \<and> prev e \<noteq> NaN \<and>
          (Number env (row_get current k) = NaN \<longrightarrow> value e = Finite 0) \<and>
          (Number env (row_get previous k) = NaN \<longrightarrow> prev e = Finite 0) \<and>
          (non_negative (value e) \<longleftrightarrow> \<not> negative (Number env (row_get current k))) \<and>
          (non_negative (prev e) \<longleftrightarrow> \<not> negative (Number env (row_get previous k)))"
      by (simp add: e stat_pair_def toNumberOrZero_not_NaN toNumberOrZero_NaN toNumberOrZero_sign)
  qed
  from st keys dist a b show ?thesis by blast
qed

text \<open>
  Two rows with the keys pageviews, visits and bounces: a number, a numeric string, a
  non-numeric string, \<open>null\<close>, \<open>NaN\<close> and a BigInt.
\<close>

theorem stats_comparison_witness:
  "stats example_conversions
     (Rows [[(''pageviews'', JNum (Finite 150)), (''visits'', JStr ''150''),
             (''bounces'', JStr ''n/a'')]])
     (Rows [[(''bounces'', JNull), (''pageviews'', JNum NaN), (''visits'', JBigInt 7)]]) =
     Inr [(''pageviews'', \<lparr>value = Finite 150, prev = Finite 0\<rparr>),
          (''visits'', \<lparr>value = Finite 150, prev = Finite 7\<rparr>),
          (''bounces'', \<lparr>value = Finite 0, prev = Finite 0\<rparr>)]"
  using stats_comparison [of
      "[(''pageviews'', JNum (Finite 150)), (''visits'', JStr ''150''), (''bounces'', JStr ''n/a'')]"
      "{''pageviews'', ''visits'', ''bounces''}"
      "[(''bounces'', JNull), (''pageviews'', JNum NaN), (''visits'', JBigInt 7)]"
      example_conversions "[]" "[]"]
  by (simp add: stats_def first_row_def row_get_def stat_pair_def toNumberOrZero_def or_zero_def
      object_defs example_conversions_def)

text \<open>
  The claim as it was stated asks for numbers that are not negative. A negative input is
  kept: \<open>Number(-3) || 0\<close> is \<open>-3\<close>.
\<close>

theorem stats_comparison_counterexample:
  "stats example_conversions (Rows [[(''visits'', JNum (Finite (- 3)))]])
     (Rows [[(''visits'', JNum (Finite (- 3)))]]) =
     Inr [(''visits'', \<lparr>value = Finite (- 3), prev = Finite (- 3)\<rparr>)] \<and>
   \<not> non_negative (Finite (- 3))"
  by (simp add: stats_def first_row_def row_get_def stat_pair_def toNumberOrZero_def or_zero_def
      object_defs)

subsection \<open>The handler\<close>

lemma js_error_TypeError: "(e :: js_error) = TypeError"
  by (cases e) simp

lemma stats_no_first_row:
  "first_row metrics = None \<Longrightarrow> stats env metrics prevPeriod = Inl TypeError"
  by (simp add: stats_def)

lemma formattedData_Response:
  "ty = ''os'' \<or> ty = ''browser'' \<or> ty = ''country'' \<Longrightarrow>
   formattedData be BadRequestResponse ty = Inl TypeError"
  by (auto simp: formattedData_def source_of_def)

lemma assemble_Response:
  "osData = BadRequestResponse \<or> browserData = BadRequestResponse \<or>
   countryData = BadRequestResponse \<Longrightarrow>
   assemble be osData browserData countryData st = Inl TypeError"
  by (auto simp: assemble_def formattedData_Response js_error_TypeError split: sum.splits)

lemma assemble_not_BadRequest: "assemble be osData browserData countryData st \<noteq> Inr BadRequest"
  by (simp add: assemble_def split: sum.splits)

lemma GET_authorised:
  "\<not> parse_error req \<Longrightarrow> canViewWebsite req \<Longrightarrow>
   fst (GET be req w) =
     (case stats (conversions be)
             (catch_badRequest (getWebsiteStats be (websiteId req) (primary_filters req)))
             (catch_badRequest (getWebsiteStats be (websiteId req) (compare_filters req))) of
        Inl e \<Rightarrow> Inl e
      | Inr st \<Rightarrow>
          assemble be
            (awaited_metrics be (websiteId req) (filters_search be req) (limit req) (offset req)
               ''os'')
            (awaited_metrics be (websiteId req) (filters_search be req) (limit req) (offset req)
               ''browser'')
            (awaited_metrics be (websiteId req) (filters_search be req) (limit req) (offset req)
               ''country'')
            st)"
  by (simp add: GET_def Let_def fetch_breakdowns_eq split: sum.splits)

lemma GET_not_BadRequest: "fst (GET be req w) \<noteq> Inr BadRequest"
  by (simp add: GET_def Let_def fetch_breakdowns_eq assemble_not_BadRequest split: sum.splits)

text \<open>
  Claim C3 says that a failed query ends the request with a bad-request response. The
  handler does build that response in each \<open>catch\<close>, but it goes on with it as if it were
  the rows. When the query of the current stats is rejected, or that of the previous stats
  while the first current row has a key, or the query of one of the three breakdowns, the
  handler of a parsed and authorised request is left by a \<open>TypeError\<close>; it returns no
  bad-request response.
\<close>

theorem GET_query_failure:
  assumes "\<not> parse_error req" and "canViewWebsite req"
    and "getWebsiteStats be (websiteId req) (primary_filters req) = Rejected \<or>
         (getWebsiteStats be (websiteId req) (primary_filters req) = Fulfilled (row # rest) \<and>
          row \<noteq> [] \<and>
          getWebsiteStats be (websiteId req) (compare_filters req) = Rejected) \<or>
         ((ty = ''os'' \<or> ty = ''browser'' \<or> ty = ''country'') \<and>
          (if ty \<in> set (SESSION_COLUMNS be) then
             getSessionMetrics be (websiteId req) ty (filters_search be req) (limit req) (offset req)
               = Rejected
           else ty \<in> set (EVENT_COLUMNS be) \<and>
             getPageviewMetrics be (websiteId req) ty (filters_search be req) (limit req) (offset req)
               = Rejected))"
  shows "fst (GET be req w) = Inl TypeError \<and> fst (GET be req w) \<noteq> Inr BadRequest"
proof -
  let ?stats = "stats (conversions be)
             (catch_badRequest (getWebsiteStats be (websiteId req) (primary_filters req)))
             (catch_badRequest (getWebsiteStats be (websiteId req) (compare_filters req)))"
  consider
    (cur) "getWebsiteStats be (websiteId req) (primary_filters req) = Rejected"
  | (prv) "getWebsiteStats be (websiteId req) (primary_filters req) = Fulfilled (row # rest)"
      "row \<noteq> []" "getWebsiteStats be (websiteId req) (compare_filters req) = Rejected"
  | (brk) "ty = ''os'' \<or> ty = ''browser'' \<or> ty = ''country''"
      "awaited_metrics be (websiteId req) (filters_search be req) (limit req) (offset req) ty
         = BadRequestResponse"
    using assms(3) by (auto simp: awaited_metrics_def catch_badRequest_def split: if_splits)
  then have "fst (GET be req w) = Inl TypeError"
  proof cases
    case cur
    then have "?stats = Inl TypeError"
      by (simp add: stats_no_first_row first_row_def catch_badRequest_def)
    then show ?thesis
      using assms(1,2) by (simp add: GET_authorised)
  next
    case prv
    then have "?stats = Inl TypeError"
      by (cases row) (simp_all add: stats_def first_row_def catch_badRequest_def Object_keys_def)
    then show ?thesis
      using assms(1,2) by (simp add: GET_authorised)
  next
    case brk
    then have "assemble be
            (awaited_metrics be (websiteId req) (filters_search be req) (limit req) (offset req)
               ''os'')
            (awaited_metrics be (websiteId req) (filters_search be req) (limit req) (offset req)
               ''browser'')
            (awaited_metrics be (websiteId req) (filters_search be req) (limit req) (offset req)
               ''country'')
            st = Inl TypeError" for st
      by (intro assemble_Response) auto
    then show ?thesis
      using assms(1,2) by (simp add: GET_authorised js_error_TypeError split: sum.splits)
  qed
  then show ?thesis by simp
qed

text \<open>
  The example request with every stats query rejected, with the stats query of the previous
  period rejected, and with every session query rejected.
\<close>

theorem GET_query_failure_witness:
  "fst (GET (example_backend\<lparr>getWebsiteStats := (\<lambda>wid fs. Rejected)\<rparr>) example_request fresh_world)
     = Inl TypeError \<and>
   fst (GET (example_backend\<lparr>getWebsiteStats :=
               (\<lambda>wid fs. if fs = primary_filters example_request then example_stats else Rejected)\<rparr>)
          example_request fresh_world) = Inl TypeError \<and>
   fst (GET (example_backend\<lparr>getSessionMetrics := (\<lambda>wid ty fs lmt ofs. Rejected)\<rparr>)
          example_request fresh_world) = Inl TypeError"
  using
    GET_query_failure [of example_request
      "example_backend\<lparr>getWebsiteStats := (\<lambda>wid fs. Rejected)\<rparr>" _ _ "''os''" fresh_world]
    GET_query_failure [of example_request
      "example_backend\<lparr>getWebsiteStats :=
               (\<lambda>wid fs. if fs = primary_filters example_request then example_stats else Rejected)\<rparr>"
      "[(''pageviews'', JNum (Finite 150)), (''visitors'', JBigInt 2),
                 (''visits'', JStr ''150''), (''bounces'', JNull), (''totaltime'', JStr ''n/a'')]"
      "[]" "''os''" fresh_world]
    GET_query_failure [of example_request
      "example_backend\<lparr>getSessionMetrics := (\<lambda>wid ty fs lmt ofs. Rejected)\<rparr>" _ _ "''os''"
      fresh_world]
  by (simp add: example_backend_def example_request_def example_stats_def primary_filters_def
      compare_filters_def with_dates_def spread_def lift_filters_def object_defs)

text \<open>
  Claim C4, as amended. When the stats query of the current period returns no row,
  \<open>Object.keys(metrics[0])\<close> throws: the differencer gives no comparison, and the handler
  of a parsed and authorised request is left by the \<open>TypeError\<close>. The comparison is empty
  when the first row of the current period has no key, and it is not empty when that row
  has a key other than \<open>__proto__\<close>.
\<close>

theorem stats_empty:
  "stats env (Rows []) prevPeriod = Inl TypeError \<and>
   stats env (Rows ([] # rest)) prevPeriod = Inr [] \<and>
   (\<not> list_all (\<lambda>k. k = ''__proto__'') (Object_keys cur) \<longrightarrow>
      stats env (Rows (cur # rest)) prevPeriod \<noteq> Inr []) \<and>
   (\<not> parse_error req \<and> canViewWebsite req \<and>
    getWebsiteStats be (websiteId req) (primary_filters req) = Fulfilled [] \<longrightarrow>
      fst (GET be req w) = Inl TypeError)"
proof -
  have a: "stats env (Rows []) prevPeriod = Inl TypeError"
    by (simp add: stats_def first_row_def)
  have b: "stats env (Rows ([] # rest)) prevPeriod = Inr []"
    by (simp add: stats_def first_row_def Object_keys_def)
  have c: "stats env (Rows (cur # rest)) prevPeriod \<noteq> Inr []"
    if k: "\<not> list_all (\<lambda>k. k = ''__proto__'') (Object_keys cur)"
  proof (cases "first_row prevPeriod")
    case None
    from k have "Object_keys cur \<noteq> []" by auto
    with None show ?thesis
      by (simp add: stats_def first_row_def stats_reduce_None)
  next
    case (Some p)
    let ?out = "fold (\<lambda>key acc. js_assign acc key (stat_pair env cur p key)) (Object_keys cur) []"
    from k obtain k' where "k' \<in> set (Object_keys cur)" "k' \<noteq> ''__proto__''"
      by (auto simp: list_all_iff)
    then have "k' \<in> set (Object_keys ?out)"
      by (simp add: keys_fold_assign)
    then have "?out \<noteq> []" by (auto simp: Object_keys_def)
    with Some show ?thesis
      by (simp add: stats_def first_row_def stats_reduce_Some)
  qed
  have d: "fst (GET be req w) = Inl TypeError"
    if "\<not> parse_error req" "canViewWebsite req"
      "getWebsiteStats be (websiteId req) (primary_filters req) = Fulfilled []"
    using that by (simp add: GET_authorised stats_def first_row_def catch_badRequest_def)
  from a b c d show ?thesis by blast
qed

theorem stats_empty_witness:
  "getWebsiteStats (example_backend\<lparr>getWebsiteStats := (\<lambda>wid fs. Fulfilled [])\<rparr>)
     (websiteId example_request) (primary_filters example_request) = Fulfilled [] \<and>
   fst (GET (example_backend\<lparr>getWebsiteStats := (\<lambda>wid fs. Fulfilled [])\<rparr>)
          example_request fresh_world) = Inl TypeError \<and>
   stats example_conversions (Rows []) (Rows [[(''visits'', JNum (Finite 100))]]) = Inl TypeError \<and>
   stats example_conversions (Rows [[]]) (Rows [[(''visits'', JNum (Finite 100))]]) = Inr [] \<and>
   \<not> list_all (\<lambda>k. k = ''__proto__'') (Object_keys [(''visits'', JNum (Finite 150))]) \<and>
   stats example_conversions (Rows [[(''visits'', JNum (Finite 150))]])
     (Rows [[(''visits'', JNum (Finite 100))]]) =
     Inr [(''visits'', \<lparr>value = Finite 150, prev = Finite 100\<rparr>)]"
  using stats_empty [of example_conversions "Rows [[(''visits'', JNum (Finite 100))]]" "[]"
      "[(''visits'', JNum (Finite 150))]" example_request
      "example_backend\<lparr>getWebsiteStats := (\<lambda>wid fs. Fulfilled [])\<rparr>" fresh_world]
  by (simp add: example_backend_def example_request_def stats_def first_row_def row_get_def
      stat_pair_def toNumberOrZero_def or_zero_def object_defs)

text \<open>
  The claim as it was stated says that the handler does not fail. With no row for either
  period, the differencer throws, and so does the handler, after its two stats queries.
\<close>

theorem stats_empty_counterexample:
  "stats example_conversions (catch_badRequest (Fulfilled [])) (catch_badRequest (Fulfilled []))
     = Inl TypeError \<and>
   GET (example_backend\<lparr>getWebsiteStats := (\<lambda>wid fs. Fulfilled [])\<rparr>) example_request fresh_world =
     (Inl TypeError,
      \<lparr>calls = [WebsiteStatsCall ''site'' (primary_filters example_request),
                WebsiteStatsCall ''site'' (compare_filters example_request)],
       proto_y = False\<rparr>)"
  by (simp add: GET_def Let_def stats_def first_row_def catch_badRequest_def example_backend_def
      example_request_def fresh_world_def log_call_def)

text \<open>
  The queries that the handler of a parsed and authorised request issues: the two stats
  queries with their filter sets and, when the differencer has not thrown, the queries of
  the three breakdowns, each with the filter set of the breakdown queries.
\<close>

lemma GET_calls:
  "\<not> parse_error req \<Longrightarrow> canViewWebsite req \<Longrightarrow>
   calls (snd (GET be req w)) =
     calls w @ [WebsiteStatsCall (websiteId req) (primary_filters req),
                WebsiteStatsCall (websiteId req) (compare_filters req)] @
     (case stats (conversions be)
             (catch_badRequest (getWebsiteStats be (websiteId req) (primary_filters req)))
             (catch_badRequest (getWebsiteStats be (websiteId req) (compare_filters req))) of
        Inl e \<Rightarrow> []
      | Inr st \<Rightarrow>
          metrics_calls be (websiteId req) (filters_search be req) (limit req) (offset req) ''os'' @
          metrics_calls be (websiteId req) (filters_search be req) (limit req) (offset req) ''browser'' @
          metrics_calls be (websiteId req) (filters_search be req) (limit req) (offset req) ''country'')"
  by (simp add: GET_def Let_def fetch_breakdowns_eq log_call_def split: sum.splits)

subsection \<open>The language normalizer\<close>

lemma combine_loop_snoc:
  "combine_loop st (ps @ [p]) =
     (case combine_loop st ps of Inl e \<Rightarrow> Inl e | Inr st' \<Rightarrow> combine_step st' p)"
  by (induction ps arbitrary: st) (auto split: sum.splits)

lemma set_first_seen: "set (first_seen ks) = set ks"
  by (induction ks) auto

lemma first_seen_snoc:
  "first_seen (ks @ [k]) = (if k \<in> set ks then first_seen ks else first_seen ks @ [k])"
  by (induction ks) auto

lemma bucket_sum_snoc:
  "bucket_sum k (ps @ [p]) = bucket_sum k ps + (if bucket_of p = k then y p else 0)"
  by (simp add: bucket_sum_def)

lemma bucket_sum_absent: "k \<notin> bucket_of ` set ps \<Longrightarrow> bucket_sum k ps = 0"
proof -
  assume "k \<notin> bucket_of ` set ps"
  then have "filter (\<lambda>p. bucket_of p = k) ps = []"
    by (auto simp: filter_empty_conv)
  then show ?thesis by (simp add: bucket_sum_def)
qed

lemma map_fst_replace_own: "map fst (replace_own c k v) = map fst c"
  using keys_replace_own[of c k v] by (simp add: Object_keys_def)

lemma js_ordered_snoc:
  "js_ordered ks \<Longrightarrow> \<not> is_array_index k \<Longrightarrow> js_ordered (ks @ [k])"
  by (induction ks) (auto simp: list_all_iff)

lemma js_ordered_insert_index:
  "is_array_index k \<Longrightarrow> js_ordered (map fst c) \<Longrightarrow> js_ordered (map fst (insert_index k v c))"
proof (induction c)
  case Nil
  then show ?case by simp
next
  case (Cons a c)
  obtain k' v' where a: "a = (k', v')" by (cases a)
  show ?case
  proof (cases "is_array_index k'")
    case True
    with Cons.prems a have
      le: "\<forall>q\<in>set c. is_array_index (fst q) \<longrightarrow> dec_val k' \<le> dec_val (fst q)"
      and ord: "js_ordered (map fst c)"
      by (auto simp: list_all_iff)
    show ?thesis
    proof (cases "dec_val k' < dec_val k")
      case less: True
      have "\<forall>q\<in>set (insert_index k v c). is_array_index (fst q) \<longrightarrow> dec_val k' \<le> dec_val (fst q)"
        using le less by (auto simp: set_insert_index)
      then show ?thesis
        using True less a Cons.IH[OF Cons.prems(1) ord] by (simp add: list_all_iff)
    next
      case False
      then have "\<forall>q\<in>set c. is_array_index (fst q) \<longrightarrow> dec_val k \<le> dec_val (fst q)"
        using le by fastforce
      then show ?thesis
        using True False a Cons.prems by (simp add: list_all_iff)
    qed
  next
    case False
    then show ?thesis
      using a Cons.prems by (simp add: list_all_iff)
  qed
qed

lemma filter_insert_index:
  "is_array_index k \<Longrightarrow>
   filter (\<lambda>k'. \<not> is_array_index k') (map fst (insert_index k v c)) =
   filter (\<lambda>k'. \<not> is_array_index k') (map fst c)"
  by (induction c) auto

lemma js_ordered_partition:
  "js_ordered ks \<Longrightarrow> ks = filter is_array_index ks @ filter (\<lambda>k. \<not> is_array_index k) ks"
proof (induction ks)
  case Nil
  then show ?case by simp
next
  case (Cons k ks)
  show ?case
  proof (cases "is_array_index k")
    case True
    with Cons show ?thesis by simp
  next
    case False
    with Cons.prems have "list_all (\<lambda>k'. \<not> is_array_index k') ks" by simp
    then have "filter is_array_index ks = []" "filter (\<lambda>k. \<not> is_array_index k) ks = ks"
      by (auto simp: list_all_iff filter_empty_conv filter_id_conv)
    with False show ?thesis by simp
  qed
qed

lemma js_ordered_sorted:
  "js_ordered ks \<Longrightarrow> sorted (map dec_val (filter is_array_index ks))"
proof (induction ks)
  case Nil
  then show ?case by simp
next
  case (Cons k ks)
  show ?case
  proof (cases "is_array_index k")
    case True
    with Cons show ?thesis by (auto simp: list_all_iff)
  next
    case False
    with Cons.prems have "list_all (\<lambda>k'. \<not> is_array_index k') ks" by simp
    then have "filter is_array_index ks = []"
      by (auto simp: list_all_iff filter_empty_conv)
    with False show ?thesis by simp
  qed
qed

lemma bit_length_0: "bit_length 0 = 0"
  by (simp add: bit_length.simps)

lemma bit_length_Suc_0: "bit_length (Suc 0) = 1"
  by (simp add: bit_length.simps[of "Suc 0"] bit_length_0)

lemma bit_length_numeral: "bit_length (numeral k) = Suc (bit_length (numeral k div 2))"
  by (simp add: bit_length.simps[of "numeral k"])

lemma round_double_exact: "\<bar>n\<bar> \<le> 2 ^ 53 \<Longrightarrow> round_double n = n"
  by (simp add: round_double_def)

lemma js_add_exact: "\<bar>a + b\<bar> \<le> 2 ^ 53 \<Longrightarrow> js_add a b = a + b"
  by (simp add: js_add_def round_double_exact)

text \<open>
  Beyond \<open>2^53\<close> the sum of two counts is rounded: \<open>9007199254740992 + 1\<close> is
  \<open>9007199254740992\<close>, and \<open>9007199254740992 + 3\<close> is \<open>9007199254740996\<close>.
\<close>

lemma js_add_rounds:
  "js_add 9007199254740992 1 = 9007199254740992 \<and>
   js_add 9007199254740992 3 = 9007199254740996 \<and>
   js_add (- 9007199254740992) (- 1) = - 9007199254740992"
  by (simp add: js_add_def round_double_def Let_def bit_length_numeral bit_length_0
      bit_length_Suc_0)

lemma abs_bucket_sum: "\<bar>bucket_sum k ps\<bar> \<le> sum_list (map (\<lambda>p. \<bar>y p\<bar>) ps)"
  by (induction ps) (auto simp: bucket_sum_def)

lemma safe_counts_butlast: "safe_counts (ps @ [p]) \<Longrightarrow> safe_counts ps"
  by (simp add: safe_counts_def)

lemma invariant_replace:
  assumes inv: "loop_invariant ps c" and e: "map_of c (bucket_of p) = Some e"
  shows "loop_invariant (ps @ [p]) (replace_own c (bucket_of p) (e\<lparr>y := v\<rparr>))"
proof -
  let ?k = "bucket_of p"
  from e have kin: "?k \<in> fst ` set c" by (metis map_of_eq_None_iff option.distinct(1))
  with inv have kps: "?k \<in> set (map bucket_of ps)" by (simp add: loop_invariant_def)
  from inv e have xe: "x e = ?k" by (auto simp: loop_invariant_def)
  have set_eq: "fst ` set (replace_own c ?k (e\<lparr>y := v\<rparr>)) = fst ` set c"
    using map_fst_replace_own[of c ?k "e\<lparr>y := v\<rparr>"] by (metis set_map)
  show ?thesis
    unfolding loop_invariant_def
  proof (intro conjI allI impI)
    show "distinct (map fst (replace_own c ?k (e\<lparr>y := v\<rparr>)))"
      using inv by (simp add: map_fst_replace_own loop_invariant_def)
    show "fst ` set (replace_own c ?k (e\<lparr>y := v\<rparr>)) = bucket_of ` set (ps @ [p])"
      using inv kin by (auto simp: set_eq loop_invariant_def)
    show "js_ordered (map fst (replace_own c ?k (e\<lparr>y := v\<rparr>)))"
      using inv by (simp add: map_fst_replace_own loop_invariant_def)
    show "filter (\<lambda>k. \<not> is_array_index k) (map fst (replace_own c ?k (e\<lparr>y := v\<rparr>))) =
          filter (\<lambda>k. \<not> is_array_index k) (first_seen (map bucket_of (ps @ [p])))"
      using inv kps by (simp add: map_fst_replace_own first_seen_snoc loop_invariant_def)
  next
    fix k' e'
    assume a: "map_of (replace_own c ?k (e\<lparr>y := v\<rparr>)) k' = Some e'"
    show "x e' = k'"
      using a inv e xe by (auto simp: map_of_replace_own loop_invariant_def split: if_splits)
  qed
qed

lemma invariant_create:
  assumes inv: "loop_invariant ps c" and e: "map_of c (bucket_of p) = None"
  shows "loop_invariant (ps @ [p]) (create_own c (bucket_of p) \<lparr>x = bucket_of p, y = y p\<rparr>)"
proof -
  let ?k = "bucket_of p"
  let ?v = "\<lparr>x = bucket_of p, y = y p\<rparr>"
  from e have kin: "?k \<notin> fst ` set c" by (simp add: map_of_eq_None_iff)
  with inv have kps: "?k \<notin> set (map bucket_of ps)" "?k \<notin> bucket_of ` set ps"
    by (auto simp: loop_invariant_def)
  have keys: "fst ` set (create_own c ?k ?v) = insert ?k (fst ` set c)"
    using keys_create_own[of c ?k ?v] by (simp add: Object_keys_def)
  show ?thesis
    unfolding loop_invariant_def
  proof (intro conjI allI impI)
    show "distinct (map fst (create_own c ?k ?v))"
      using inv kin by (auto simp: create_own_def distinct_insert_index loop_invariant_def)
    show "fst ` set (create_own c ?k ?v) = bucket_of ` set (ps @ [p])"
      using inv by (auto simp: keys loop_invariant_def)
    show "js_ordered (map fst (create_own c ?k ?v))"
      using inv by (simp add: create_own_def js_ordered_insert_index js_ordered_snoc loop_invariant_def)
    show "filter (\<lambda>k. \<not> is_array_index k) (map fst (create_own c ?k ?v)) =
          filter (\<lambda>k. \<not> is_array_index k) (first_seen (map bucket_of (ps @ [p])))"
      using inv kps
      by (simp add: create_own_def filter_insert_index first_seen_snoc loop_invariant_def)
  next
    fix k' e'
    assume a: "map_of (create_own c ?k ?v) k' = Some e'"
    show "x e' = k'"
      using a inv e by (auto simp: map_of_create_own loop_invariant_def split: if_splits)
  qed
qed

lemma sums_replace:
  assumes sums: "loop_sums ps c" and e: "map_of c (bucket_of p) = Some e"
    and safe: "safe_counts (ps @ [p])"
  shows "loop_sums (ps @ [p]) (replace_own c (bucket_of p) (e\<lparr>y := js_add (y e) (y p)\<rparr>))"
proof -
  let ?k = "bucket_of p"
  from sums e have ye: "y e = bucket_sum ?k ps" by (simp add: loop_sums_def)
  have "\<bar>bucket_sum ?k (ps @ [p])\<bar> \<le> 2 ^ 53"
    using abs_bucket_sum[of ?k "ps @ [p]"] safe by (simp only: safe_counts_def)
  then have "\<bar>y e + y p\<bar> \<le> 2 ^ 53"
    by (simp add: ye bucket_sum_snoc)
  then have add: "js_add (y e) (y p) = bucket_sum ?k (ps @ [p])"
    by (simp add: js_add_exact ye bucket_sum_snoc)
  show ?thesis
    unfolding loop_sums_def
  proof (intro allI impI)
    fix k' e'
    assume a: "map_of (replace_own c ?k (e\<lparr>y := js_add (y e) (y p)\<rparr>)) k' = Some e'"
    show "y e' = bucket_sum k' (ps @ [p])"
    proof (cases "k' = ?k")
      case True
      with a e have "e' = e\<lparr>y := js_add (y e) (y p)\<rparr>"
        by (simp add: map_of_replace_own)
      then show ?thesis by (simp add: add True)
    next
      case False
      with a have "map_of c k' = Some e'" by (simp add: map_of_replace_own)
      with sums have "y e' = bucket_sum k' ps" by (simp add: loop_sums_def)
      with False show ?thesis by (simp add: bucket_sum_snoc)
    qed
  qed
qed

lemma sums_create:
  assumes sums: "loop_sums ps c" and keys: "fst ` set c = bucket_of ` set ps"
    and e: "map_of c (bucket_of p) = None"
  shows "loop_sums (ps @ [p]) (create_own c (bucket_of p) \<lparr>x = bucket_of p, y = y p\<rparr>)"
proof -
  let ?k = "bucket_of p"
  from e have "?k \<notin> fst ` set c" by (simp add: map_of_eq_None_iff)
  with keys have kps: "?k \<notin> bucket_of ` set ps" by simp
  show ?thesis
    unfolding loop_sums_def
  proof (intro allI impI)
    fix k' e'
    assume a: "map_of (create_own c ?k \<lparr>x = ?k, y = y p\<rparr>) k' = Some e'"
    show "y e' = bucket_sum k' (ps @ [p])"
    proof (cases "k' = ?k")
      case True
      with a e have "e' = \<lparr>x = ?k, y = y p\<rparr>"
        by (simp add: map_of_create_own)
      then show ?thesis
        using kps by (simp add: True bucket_sum_snoc bucket_sum_absent)
    next
      case False
      with a e have "map_of c k' = Some e'" by (simp add: map_of_create_own)
      with sums have "y e' = bucket_sum k' ps" by (simp add: loop_sums_def)
      with False show ?thesis by (simp add: bucket_sum_snoc)
    qed
  qed
qed

lemma combine_loop_kept:
  assumes "list_all (\<lambda>p. bucket_of p \<noteq> ''__proto__'') ps"
  shows "\<exists>c. combine_loop ([], False) ps = Inr (c, False) \<and> loop_invariant (kept ps) c \<and>
             (safe_counts (kept ps) \<longrightarrow> loop_sums (kept ps) c)"
  using assms
proof (induction ps rule: rev_induct)
  case Nil
  then show ?case by (simp add: loop_invariant_def loop_sums_def kept_def)
next
  case (snoc p ps)
  then obtain c where c: "combine_loop ([], False) ps = Inr (c, False)"
      "loop_invariant (kept ps) c" "safe_counts (kept ps) \<longrightarrow> loop_sums (kept ps) c"
    by auto
  from snoc.prems have p: "bucket_of p \<noteq> ''__proto__''"
    by auto
  show ?case
  proof (cases "bucket_of p = ''constructor''")
    case True
    from c(2) have "''constructor'' \<notin> fst ` set c"
      by (auto simp: loop_invariant_def kept_def)
    then have "map_of c ''constructor'' = None"
      by (simp add: map_of_eq_None_iff)
    then have "combine_step (c, False) p = Inr (c, False)"
      using True by (simp add: get_own_def Let_def)
    with c True show ?thesis
      by (simp add: combine_loop_snoc kept_def)
  next
    case False
    then have k: "kept (ps @ [p]) = kept ps @ [p]"
      by (simp add: kept_def)
    from c(2) have keys: "fst ` set c = bucket_of ` set (kept ps)"
      by (simp add: loop_invariant_def)
    show ?thesis
    proof (cases "map_of c (bucket_of p)")
      case None
      then have step: "combine_step (c, False) p =
                   Inr (create_own c (bucket_of p) \<lparr>x = bucket_of p, y = y p\<rparr>, False)"
        using p False by (simp add: get_own_def Let_def)
      have "loop_sums (kept ps @ [p]) (create_own c (bucket_of p) \<lparr>x = bucket_of p, y = y p\<rparr>)"
        if "safe_counts (kept ps @ [p])"
        using that c(3) keys None safe_counts_butlast sums_create by blast
      with c step None show ?thesis
        by (simp add: combine_loop_snoc invariant_create k)
    next
      case (Some e)
      then have step: "combine_step (c, False) p =
                   Inr (replace_own c (bucket_of p) (e\<lparr>y := js_add (y e) (y p)\<rparr>), False)"
        by (simp add: get_own_def Let_def)
      have "loop_sums (kept ps @ [p])
              (replace_own c (bucket_of p) (e\<lparr>y := js_add (y e) (y p)\<rparr>))"
        if "safe_counts (kept ps @ [p])"
        using that c(3) Some safe_counts_butlast sums_replace by blast
      with c step Some show ?thesis
        by (simp add: combine_loop_snoc invariant_replace k)
    qed
  qed
qed

lemma combine_loop_invariant:
  assumes "list_all (\<lambda>p. bucket_of p \<noteq> ''__proto__'' \<and> bucket_of p \<noteq> ''constructor'') ps"
    and "safe_counts ps"
  shows "\<exists>c. combine_loop ([], False) ps = Inr (c, False) \<and> loop_invariant ps c \<and>
             loop_sums ps c"
proof -
  from assms(1) have "list_all (\<lambda>p. bucket_of p \<noteq> ''__proto__'') ps" and "kept ps = ps"
    by (auto simp: list_all_iff kept_def filter_id_conv)
  with combine_loop_kept [of ps] assms(2) show ?thesis by simp
qed

lemma strict_index_order:
  assumes "distinct ks" and "sorted (map dec_val (filter is_array_index ks))"
  shows "sorted_wrt (<) (map dec_val (filter is_array_index ks))"
proof -
  have "inj_on dec_val (set (filter is_array_index ks))"
    by (auto simp: inj_on_def dec_val_inj)
  with assms(1) have "distinct (map dec_val (filter is_array_index ks))"
    by (simp add: distinct_map)
  with assms(2) show ?thesis
    by (simp add: strict_sorted_iff)
qed

lemma normalize_language_general:
  assumes "list_all (\<lambda>p. bucket_of p \<noteq> ''__proto__'' \<and> bucket_of p \<noteq> ''constructor'') points"
    and "safe_counts points"
  shows "\<exists>out. normalize_language False (Rows points) = (Inr out, False) \<and>
           distinct (map x out) \<and> set (map x out) = bucket_of ` set points \<and>
           list_all (\<lambda>q. y q = bucket_sum (x q) points) out \<and>
           map x out = filter is_array_index (map x out) @
                       filter (\<lambda>k. \<not> is_array_index k) (first_seen (map bucket_of points)) \<and>
           sorted_wrt (<) (map dec_val (filter is_array_index (map x out)))"
proof -
  from combine_loop_invariant [OF assms] obtain c
    where c: "combine_loop ([], False) points = Inr (c, False)" and inv: "loop_invariant points c"
      and sm: "loop_sums points c"
    by blast
  let ?out = "Object_values c"
  have res: "normalize_language False (Rows points) = (Inr ?out, False)"
    by (simp add: normalize_language_def c)
  have entry: "x e = k \<and> y e = bucket_sum k points" if "(k, e) \<in> set c" for k e
  proof -
    from inv have "distinct (map fst c)" by (simp add: loop_invariant_def)
    with that have "map_of c k = Some e" by simp
    with inv sm show ?thesis by (simp add: loop_invariant_def loop_sums_def)
  qed
  have keys: "map x ?out = map fst c"
    using entry by (auto simp: Object_values_def)
  have sums: "list_all (\<lambda>q. y q = bucket_sum (x q) points) ?out"
    using entry by (auto simp: Object_values_def list_all_iff)
  have part: "map fst c = filter is_array_index (map fst c) @
                filter (\<lambda>k. \<not> is_array_index k) (first_seen (map bucket_of points))"
    using inv js_ordered_partition[of "map fst c"] by (simp add: loop_invariant_def)
  have d: "distinct (map x ?out)"
    using inv by (simp add: keys loop_invariant_def)
  have s: "set (map x ?out) = bucket_of ` set points"
    using inv by (simp add: keys loop_invariant_def)
  have "sorted (map dec_val (filter is_array_index (map x ?out)))"
    using inv by (simp add: keys js_ordered_sorted loop_invariant_def)
  with d have so: "sorted_wrt (<) (map dec_val (filter is_array_index (map x ?out)))"
    by (rule strict_index_order)
  have part': "map x ?out = filter is_array_index (map x ?out) @
                filter (\<lambda>k. \<not> is_array_index k) (first_seen (map bucket_of points))"
    unfolding keys by (rule part)
  from res d s sums part' so show ?thesis by blast
qed

lemma normalize_language_examples:
  "normalize_language False
     (Rows [\<lparr>x = ''en-US'', y = 3\<rparr>, \<lparr>x = ''en-GB'', y = 2\<rparr>, \<lparr>x = ''fr-FR'', y = 1\<rparr>]) =
     (Inr [\<lparr>x = ''en'', y = 5\<rparr>, \<lparr>x = ''fr'', y = 1\<rparr>], False) \<and>
   normalize_language False (Rows []) = (Inr [], False)"
  by (simp add: normalize_language_def Let_def string_defs object_defs js_add_exact)

text \<open>
  Beyond that range a sum of the loop is rounded: two points of one bucket with the counts
  \<open>2^53\<close> and 1 give the count \<open>2^53\<close>.
\<close>

lemma normalize_language_rounds:
  "normalize_language False
     (Rows [\<lparr>x = ''en'', y = 9007199254740992\<rparr>, \<lparr>x = ''en'', y = 1\<rparr>]) =
     (Inr [\<lparr>x = ''en'', y = 9007199254740992\<rparr>], False) \<and>
   bucket_sum ''en'' [\<lparr>x = ''en'', y = 9007199254740992\<rparr>, \<lparr>x = ''en'', y = 1\<rparr>] =
     9007199254740993 \<and>
   \<not> safe_counts [\<lparr>x = ''en'', y = 9007199254740992\<rparr>, \<lparr>x = ''en'', y = 1\<rparr>]"
  by (simp add: normalize_language_def Let_def string_defs object_defs js_add_def
      round_double_def bit_length_numeral bit_length_0 bit_length_Suc_0 bucket_sum_def
      safe_counts_def)

text \<open>
  Claim C2, as amended. Let the normalization start with an \<open>Object.prototype\<close> that has
  no property \<open>y\<close>, let no bucket key of the points be \<open>__proto__\<close> or \<open>constructor\<close>, and
  let the magnitudes of the counts add up to at most \<open>2^53\<close>, so that every sum of counts
  is exact. The normalization buckets each point by the lower-cased \<open>x\<close> up to its first
  hyphen and returns one point per bucket key, with the sum of the counts of the bucket:
  first the keys that are array indices, in ascending numeric order, then the other keys
  in the order in which they were first seen. The three points en-US, en-GB and fr-FR with
  the counts 3, 2 and 1 give en with 5, then fr with 1; no point gives none.
\<close>

theorem normalize_language_buckets:
  assumes "list_all (\<lambda>p. bucket_of p \<noteq> ''__proto__'' \<and> bucket_of p \<noteq> ''constructor'') points"
    and "safe_counts points"
  shows "(\<exists>out. normalize_language False (Rows points) = (Inr out, False) \<and>
           distinct (map x out) \<and> set (map x out) = bucket_of ` set points \<and>
           list_all (\<lambda>q. y q = bucket_sum (x q) points) out \<and>
           map x out = filter is_array_index (map x out) @
                       filter (\<lambda>k. \<not> is_array_index k) (first_seen (map bucket_of points)) \<and>
           sorted_wrt (<) (map dec_val (filter is_array_index (map x out)))) \<and>
         normalize_language False
           (Rows [\<lparr>x = ''en-US'', y = 3\<rparr>, \<lparr>x = ''en-GB'', y = 2\<rparr>, \<lparr>x = ''fr-FR'', y = 1\<rparr>]) =
           (Inr [\<lparr>x = ''en'', y = 5\<rparr>, \<lparr>x = ''fr'', y = 1\<rparr>], False) \<and>
         normalize_language False (Rows []) = (Inr [], False)"
  using normalize_language_general [OF assms] normalize_language_examples by blast

text \<open>Two variants of one language around two numeric keys, the larger one first.\<close>

theorem normalize_language_buckets_witness:
  "list_all (\<lambda>p. bucket_of p \<noteq> ''__proto__'' \<and> bucket_of p \<noteq> ''constructor'')
     [\<lparr>x = ''pt-BR'', y = 4\<rparr>, \<lparr>x = ''10'', y = 2\<rparr>, \<lparr>x = ''9'', y = 3\<rparr>, \<lparr>x = ''PT'', y = 1\<rparr>] \<and>
   safe_counts
     [\<lparr>x = ''pt-BR'', y = 4\<rparr>, \<lparr>x = ''10'', y = 2\<rparr>, \<lparr>x = ''9'', y = 3\<rparr>, \<lparr>x = ''PT'', y = 1\<rparr>] \<and>
   normalize_language False
     (Rows [\<lparr>x = ''pt-BR'', y = 4\<rparr>, \<lparr>x = ''10'', y = 2\<rparr>, \<lparr>x = ''9'', y = 3\<rparr>, \<lparr>x = ''PT'', y = 1\<rparr>]) =
     (Inr [\<lparr>x = ''9'', y = 3\<rparr>, \<lparr>x = ''10'', y = 2\<rparr>, \<lparr>x = ''pt'', y = 5\<rparr>], False)"
  using normalize_language_buckets [of
      "[\<lparr>x = ''pt-BR'', y = 4\<rparr>, \<lparr>x = ''10'', y = 2\<rparr>, \<lparr>x = ''9'', y = 3\<rparr>, \<lparr>x = ''PT'', y = 1\<rparr>]"]
  by (simp add: normalize_language_def Let_def string_defs object_defs js_add_exact
      safe_counts_def)

text \<open>
  The claim as it was stated has the keys in the order of their first occurrence. The key
  \<open>1\<close> is an array index: it is enumerated before \<open>b\<close>, which was seen first.
\<close>

theorem normalize_language_order_counterexample:
  "normalize_language False (Rows [\<lparr>x = ''b'', y = 1\<rparr>, \<lparr>x = ''1'', y = 2\<rparr>]) =
     (Inr [\<lparr>x = ''1'', y = 2\<rparr>, \<lparr>x = ''b'', y = 1\<rparr>], False) \<and>
   first_seen (map bucket_of [\<lparr>x = ''b'', y = 1\<rparr>, \<lparr>x = ''1'', y = 2\<rparr>]) = [''b'', ''1'']"
  by (simp add: normalize_language_def Let_def string_defs object_defs)














subsection \<open>The filter builder\<close>

lemma set_replace_own: "set (replace_own obj k v) \<subseteq> insert (k, v) (set obj)"
  by (induction obj) (auto split: if_splits)

lemma set_define_own: "set (define_own obj k v) \<subseteq> insert (k, v) (set obj)"
  using set_replace_own[of obj k v]
  by (auto simp: define_own_def create_own_def set_insert_index)

lemma set_fold_define: "set (fold (\<lambda>(k, v) acc. define_own acc k v) obj acc) \<subseteq> set acc \<union> set obj"
proof (induction obj arbitrary: acc)
  case Nil
  then show ?case by simp
next
  case (Cons a obj)
  obtain k v where a: "a = (k, v)" by (cases a)
  show ?case
    using Cons.IH[of "define_own acc k v"] set_define_own[of acc k v]
    by (auto simp: a)
qed

lemma set_spread: "set (spread obj) \<subseteq> set obj"
  using set_fold_define[of obj "[]"] by (simp add: spread_def)

lemma distinct_fold_define:
  "distinct (Object_keys acc) \<Longrightarrow>
   distinct (Object_keys (fold (\<lambda>(k, v) acc. define_own acc k v) obj acc))"
  by (induction obj arbitrary: acc) (auto simp: distinct_define_own)

lemma distinct_spread: "distinct (Object_keys (spread obj))"
  using distinct_fold_define[of "[]" obj] by (simp add: spread_def Object_keys_def)

lemma distinct_with_dates: "distinct (Object_keys (with_dates fs sd ed))"
  by (simp add: with_dates_def distinct_define_own distinct_spread)

lemma with_dates_no_search:
  "list_all (\<lambda>(k, v). \<not> is_search_filter v) (with_dates (lift_filters fs) sd ed)"
proof -
  have "set (with_dates (lift_filters fs) sd ed) \<subseteq>
          {(''endDate'', DateValue ed), (''startDate'', DateValue sd)} \<union> set (lift_filters fs)"
    using set_define_own[of "define_own (spread (lift_filters fs)) ''startDate'' (DateValue sd)" "''endDate'' " "DateValue ed"]
      set_define_own[of "spread (lift_filters fs)" "''startDate''" "DateValue sd"]
      set_spread[of "lift_filters fs"]
    by (auto simp: with_dates_def)
  then show ?thesis
    by (auto simp: list_all_iff lift_filters_def)
qed

text \<open>
  For a search term that is not empty and a requested dimension other than \<open>__proto__\<close>:
  the filter set of the breakdown queries has one entry per key; under the requested
  dimension it has the search filter, whose column is the dimension itself when
  \<open>FILTER_COLUMNS\<close> has no entry for it and the dimension is not the name of a member of
  \<open>Object.prototype\<close> (for such a name the column is that member); every other key is as
  in the filter set of the stats query; and neither filter set of the stats queries holds
  a search filter.
\<close>

lemma filters_search_entry:
  assumes "search req = Some s" and "s \<noteq> []" and "type req \<noteq> ''__proto__''"
  shows "distinct (Object_keys (filters_search be req)) \<and>
         get_own (filters_search be req) (type req) =
           Some (SearchFilter (type req) (lookup_or (FILTER_COLUMNS be) (type req))
                   (OPERATORS_contains be) s) \<and>
         (FILTER_COLUMNS be (type req) = None \<longrightarrow>
            lookup_or (FILTER_COLUMNS be) (type req) =
              (if type req \<in> set prototype_members then Member (type req) else Text (type req))) \<and>
         (\<forall>k. k \<noteq> type req \<longrightarrow> get_own (filters_search be req) k = get_own (primary_filters req) k) \<and>
         list_all (\<lambda>(k, v). \<not> is_search_filter v) (primary_filters req) \<and>
         list_all (\<lambda>(k, v). \<not> is_search_filter v) (compare_filters req)"
  using assms
  by (simp add: filters_search_def add_search_def primary_filters_def compare_filters_def
      distinct_js_assign distinct_with_dates get_js_assign with_dates_no_search lookup_or_def
      table_read_def)

text \<open>
  Claim C9 says that a search term adds its filter under the requested dimension. For the
  dimension \<open>__proto__\<close> and the search term \<open>docs\<close>, the assignment
  \<open>filters_search[type] = {...}\<close> sets the prototype of the filter set: the filter set of
  the breakdown queries has no entry for the dimension and no search filter at all.
\<close>

theorem filters_search_proto:
  "search (example_request\<lparr>type := ''__proto__''\<rparr>) = Some ''docs'' \<and>
   get_own (filters_search example_backend (example_request\<lparr>type := ''__proto__''\<rparr>)) ''__proto__'' = None \<and>
   filters_search example_backend (example_request\<lparr>type := ''__proto__''\<rparr>) =
     [(''country'', PassThrough ''US''), (''startDate'', DateValue 1000), (''endDate'', DateValue 2000)]"
  by (simp add: filters_search_def add_search_def with_dates_def spread_def lift_filters_def
      example_request_def example_backend_def object_defs)

end
